theory Spec2Isabelle
  imports Complex_Main "HOL-Library.Word" "HOL-Library.Signed_Division"
begin

unbundle bit_operations_syntax

section \<open>Data model of dwm.c\<close>

text \<open>
  Pointers to \<open>Client\<close> and \<open>Monitor\<close> structures are addresses (natural numbers) into
  two stores held by the state. The NULL-terminated chains \<open>mons\<close>, \<open>cl->clients\<close> (linked
  by \<open>next\<close>) and \<open>cl->stack\<close> (linked by \<open>snext\<close>) are the lists of the addresses met when
  walking the chain from its head. A pointer that may be NULL is an \<open>option\<close>.
  C \<open>int\<close> geometry is \<open>int\<close>; an \<open>int\<close> used as a truth value is \<open>bool\<close>;
  \<open>unsigned int\<close> tag masks are 32-bit words. The two \<open>float\<close> aspect limits of a client
  and the \<open>float\<close> master factor of a monitor are real numbers.
\<close>

type_synonym Window = nat
type_synonym cref = nat
type_synonym mref = nat
type_synonym rect = "int \<times> int \<times> int \<times> int"

record Client =
  name :: string
  mina :: real
  maxa :: real
  x :: int
  y :: int
  w :: int
  h :: int
  oldx :: int
  oldy :: int
  oldw :: int
  oldh :: int
  basew :: int
  baseh :: int
  incw :: int
  inch :: int
  maxw :: int
  maxh :: int
  minw :: int
  minh :: int
  bw :: int
  oldbw :: int
  tags :: "32 word"
  isfixed :: bool
  isfloating :: bool
  isurgent :: bool
  neverfocus :: bool
  oldstate :: bool
  isfullscreen :: bool
  ignoresizehints :: bool
  beingmoved :: bool
  isterminal :: bool
  noswallow :: bool
  pid :: int
  swallowing :: "cref option"
  mon :: mref
  win :: Window

text \<open>
  What a layout function reads through its \<open>Monitor *\<close> argument: the work area, the four
  gaps, \<open>mfact\<close>, \<open>nmaster\<close> and the border widths of the tiled clients in list order.
\<close>

record LayoutArg =
  la_area :: rect
  la_gaps :: rect
  la_mfact :: real
  la_nmaster :: int
  la_bws :: "int list"

text \<open>
  The \<open>arrange\<close> member of a \<open>Layout\<close> is a function pointer. \<open>monocle\<close> is defined in
  dwm.c. Every other entry of the \<open>layouts\<close> table of config.h (tile, deck, spiral, ...)
  comes from vanitygaps.c, which is not part of the sources at hand.

  Modelled from the spec: the layout functions of vanitygaps.c. Section 4.3 describes a
  layout as a pure function from the monitor and its tileable clients in list order to one
  rectangle per client, applied through the generic \<open>resize\<close> path with \<open>interact = 0\<close>;
  deck also overrides the layout symbol. \<open>ext_fn f\<close> is such a function: \<open>f\<close> returns the
  optional symbol and the rectangles.
\<close>

datatype arrangefn = monocle_fn | ext_fn "LayoutArg \<Rightarrow> string option \<times> rect list"

text \<open>The test \<open>&monocle == arrange\<close> on such a pointer.\<close>

fun is_monocle :: "arrangefn option \<Rightarrow> bool" where
  "is_monocle (Some monocle_fn) = True"
| "is_monocle _ = False"

record Layout =
  symbol :: string
  arrange :: "arrangefn option"

record Monitor =
  ltsymbol :: string
  mfact :: real
  nmaster :: int
  num :: int
  mx :: int
  my :: int
  mw :: int
  mh :: int
  wx :: int
  wy :: int
  ww :: int
  wh :: int
  gappih :: int
  gappiv :: int
  gappoh :: int
  gappov :: int
  seltags :: nat
  sellt :: nat
  tagset :: "nat \<Rightarrow> 32 word"
  showbar :: bool
  sel :: "cref option"
  lt :: "nat \<Rightarrow> Layout"

record Clientlist =
  clients :: "cref list"
  stack :: "cref list"

text \<open>The argument of the last \<open>XConfigureWindow\<close> request that \<open>resizeclient\<close> sent for a window.\<close>

record XWindowChanges =
  wc_x :: int
  wc_y :: int
  wc_width :: int
  wc_height :: int
  wc_border_width :: int

text \<open>
  The global variables of dwm.c that the modelled functions read or write, and the part of
  the X server they act on: the root properties \<open>_NET_CLIENT_LIST\<close> and
  \<open>_NET_CLIENT_LIST_STACKING\<close>, the configuration last requested for each window, and the
  title the server holds for each window (read by \<open>updatetitle\<close>).
  \<open>setup\<close> allocates one \<open>Clientlist\<close> and \<open>createmon\<close> stores that same pointer in the
  \<open>cl\<close> member of every monitor (\<open>m->cl = cl\<close> is the only assignment to it), so
  \<open>m->cl\<close> is the global \<open>cl\<close> for every monitor \<open>m\<close>.
\<close>

record State =
  mons :: "mref list"
  selmon :: mref
  cl :: Clientlist
  client :: "cref \<Rightarrow> Client"
  monitor :: "mref \<Rightarrow> Monitor"
  sw :: int
  sh :: int
  bh :: int
  NetClientList :: "Window list"
  NetClientListStacking :: "Window list"
  xconfigured :: "Window \<Rightarrow> XWindowChanges option"
  xtitle :: "Window \<Rightarrow> string"

subsection \<open>Configuration (config.h)\<close>

definition LENGTH_tags :: nat where
  "LENGTH_tags = 9"

definition LENGTH_scratchpads :: nat where
  "LENGTH_scratchpads = 1"

definition NUMTAGS :: nat where
  "NUMTAGS = LENGTH_tags + LENGTH_scratchpads"

definition TAGMASK :: "32 word" where
  "TAGMASK = push_bit NUMTAGS 1 - 1"

definition SPTAGMASK :: "32 word" where
  "SPTAGMASK = push_bit LENGTH_tags (push_bit LENGTH_scratchpads 1 - 1)"

definition resizehints :: bool where
  "resizehints = False"



subsection \<open>Macros\<close>

definition ISVISIBLE :: "Client \<Rightarrow> Monitor \<Rightarrow> bool" where
  "ISVISIBLE C M \<longleftrightarrow> tags C AND tagset M (seltags M) \<noteq> 0"

definition WIDTH :: "Client \<Rightarrow> int" where
  "WIDTH X = w X + 2 * bw X"

definition HEIGHT :: "Client \<Rightarrow> int" where
  "HEIGHT X = h X + 2 * bw X"

section \<open>Geometry: applysizehints, resize, resizeclient\<close>

text \<open>
  \<open>nexttiled(c, m)\<close> walks the \<open>next\<close> chain that starts at \<open>c\<close>; the chain is passed as
  the list of its nodes. \<open>c_next s c\<close> is the chain that starts at \<open>c->next\<close> for a client
  \<open>c\<close> of the client list.
\<close>

fun nexttiled :: "State \<Rightarrow> cref list \<Rightarrow> mref \<Rightarrow> cref option" where
  "nexttiled s [] m = None"
| "nexttiled s (c # cs) m =
     (if isfloating (client s c) \<or> \<not> ISVISIBLE (client s c) (monitor s m)
      then nexttiled s cs m else Some c)"

definition c_next :: "State \<Rightarrow> cref \<Rightarrow> cref list" where
  "c_next s c = tl (dropWhile (\<lambda>d. d \<noteq> c) (clients (cl s)))"

text \<open>
  The aspect-ratio branch of \<open>applysizehints\<close> computes in \<open>float\<close>. It is written here
  over the reals: \<open>flt_lt_quot a p q\<close> is \<open>a < (float)p / q\<close> (a division by zero gives
  an infinity of the sign of \<open>p\<close>, or NaN, which compares false), and \<open>ftoi\<close> is the
  conversion of a \<open>float\<close> to \<open>int\<close>, which truncates towards zero.
\<close>

definition flt_lt_quot :: "real \<Rightarrow> int \<Rightarrow> int \<Rightarrow> bool" where
  "flt_lt_quot a p q = (if q = 0 then 0 < p else a < real_of_int p / real_of_int q)"

definition ftoi :: "real \<Rightarrow> int" where
  "ftoi r = (if 0 \<le> r then \<lfloor>r\<rfloor> else \<lceil>r\<rceil>)"

definition sizehints :: "Client \<Rightarrow> int \<Rightarrow> int \<Rightarrow> int \<times> int" where
  "sizehints C w0 h0 =
    (let baseismin = (basew C = minw C \<and> baseh C = minh C);
         w1 = (if \<not> baseismin then w0 - basew C else w0);
         h1 = (if \<not> baseismin then h0 - baseh C else h0);
         w2 = (if mina C > 0 \<and> maxa C > 0 \<and> flt_lt_quot (maxa C) w1 h1
               then ftoi (real_of_int h1 * maxa C + 1 / 2) else w1);
         h2 = (if mina C > 0 \<and> maxa C > 0 \<and> \<not> flt_lt_quot (maxa C) w1 h1
                  \<and> flt_lt_quot (mina C) h1 w1
               then ftoi (real_of_int w1 * mina C + 1 / 2) else h1);
         w3 = (if baseismin then w2 - basew C else w2);
         h3 = (if baseismin then h2 - baseh C else h2);
         w4 = (if incw C \<noteq> 0 then w3 - w3 smod incw C else w3);
         h4 = (if inch C \<noteq> 0 then h3 - h3 smod inch C else h3);
         w5 = max (w4 + basew C) (minw C);
         h5 = max (h4 + baseh C) (minh C);
         w6 = (if maxw C \<noteq> 0 then min w5 (maxw C) else w5);
         h6 = (if maxh C \<noteq> 0 then min h5 (maxh C) else h5)
     in (w6, h6))"

text \<open>
  \<open>applysizehints\<close> writes through its four pointer arguments and returns whether the
  result differs from the client's geometry: the model returns the four values and the flag.
\<close>

definition applysizehints ::
  "State \<Rightarrow> cref \<Rightarrow> int \<Rightarrow> int \<Rightarrow> int \<Rightarrow> int \<Rightarrow> bool \<Rightarrow> int \<times> int \<times> int \<times> int \<times> bool" where
  "applysizehints s c x0 y0 w0 h0 interact =
    (let C = client s c; m = monitor s (mon C);
         w1 = max 1 w0;
         h1 = max 1 h0;
         x1 = (if interact then (if x0 > sw s then sw s - WIDTH C else x0)
               else (if x0 \<ge> wx m + ww m then wx m + ww m - WIDTH C else x0));
         y1 = (if interact then (if y0 > sh s then sh s - HEIGHT C else y0)
               else (if y0 \<ge> wy m + wh m then wy m + wh m - HEIGHT C else y0));
         x2 = (if interact then (if x1 + w1 + 2 * bw C < 0 then 0 else x1)
               else (if x1 + w1 + 2 * bw C \<le> wx m then wx m else x1));
         y2 = (if interact then (if y1 + h1 + 2 * bw C < 0 then 0 else y1)
               else (if y1 + h1 + 2 * bw C \<le> wy m then wy m else y1));
         h2 = (if h1 < bh s then bh s else h1);
         w2 = (if w1 < bh s then bh s else w1);
         (w3, h3) = (if \<not> ignoresizehints C
                        \<and> (resizehints \<or> isfloating C \<or> arrange (lt m (sellt m)) = None)
                     then sizehints C w2 h2 else (w2, h2))
     in (x2, y2, w3, h3, x2 \<noteq> x C \<or> y2 \<noteq> y C \<or> w3 \<noteq> w C \<or> h3 \<noteq> h C))"

text \<open>
  \<open>resizeclient\<close> stores the geometry, and unless the client is being moved sends it to
  the X server with \<open>XConfigureWindow\<close> (\<open>configure\<close> and \<open>XSync\<close> only talk to the
  server).
\<close>

definition resizeclient :: "State \<Rightarrow> cref \<Rightarrow> int \<Rightarrow> int \<Rightarrow> int \<Rightarrow> int \<Rightarrow> State" where
  "resizeclient s c x0 y0 w0 h0 =
    (let C = client s c;
         C1 = C\<lparr>oldx := x C, x := x0, oldy := y C, y := y0,
                oldw := w C, w := w0, oldh := h C, h := h0\<rparr>;
         s1 = s\<lparr>client := (client s)(c := C1)\<rparr>;
         M = monitor s1 (mon C1)
     in if beingmoved C1 then s1
        else if ((nexttiled s1 (clients (cl s1)) (mon C1) = Some c
                    \<and> nexttiled s1 (c_next s1 c) (mon C1) = None)
                  \<or> is_monocle (arrange (lt M (sellt M))))
                \<and> \<not> isfullscreen C1 \<and> \<not> isfloating C1
                \<and> arrange (lt M (sellt M)) \<noteq> None
        then s1\<lparr>client := (client s1)(c := C1\<lparr>w := w0 + bw C1 * 2, h := h0 + bw C1 * 2\<rparr>),
                xconfigured := (xconfigured s1)(win C1 \<mapsto>
                   \<lparr>wc_x = x0, wc_y = y0, wc_width = w0 + bw C1 * 2,
                    wc_height = h0 + bw C1 * 2, wc_border_width = 0\<rparr>)\<rparr>
        else s1\<lparr>xconfigured := (xconfigured s1)(win C1 \<mapsto>
                   \<lparr>wc_x = x0, wc_y = y0, wc_width = w0, wc_height = h0,
                    wc_border_width = bw C1\<rparr>)\<rparr>)"

definition resize :: "State \<Rightarrow> cref \<Rightarrow> int \<Rightarrow> int \<Rightarrow> int \<Rightarrow> int \<Rightarrow> bool \<Rightarrow> State" where
  "resize s c x0 y0 w0 h0 interact =
    (case applysizehints s c x0 y0 w0 h0 interact of
       (x1, y1, w1, h1, changed) \<Rightarrow> if changed then resizeclient s c x1 y1 w1 h1 else s)"

section \<open>Arranging: showhide, the layouts, arrangemon, arrange, restack\<close>

text \<open>
  \<open>showhide\<close> recurses along the \<open>snext\<close> chain. A visible client on a scratchpad tag
  that floats is centred in the work area; a visible client that floats, or any visible
  client when the monitor has no layout function, goes through \<open>resize\<close> unless it is
  fullscreen. The \<open>XMoveWindow\<close> calls only talk to the server. C's \<open>/\<close> truncates
  towards zero (\<open>sdiv\<close>).
\<close>

fun showhide :: "State \<Rightarrow> cref list \<Rightarrow> State" where
  "showhide s [] = s"
| "showhide s (c # cs) =
    (let C = client s c; M = monitor s (mon C)
     in if ISVISIBLE C M then
          (let C1 = (if tags C AND SPTAGMASK \<noteq> 0 \<and> isfloating C
                     then C\<lparr>x := wx M + (ww M sdiv 2 - WIDTH C sdiv 2),
                            y := wy M + (wh M sdiv 2 - HEIGHT C sdiv 2)\<rparr>
                     else C);
               s1 = s\<lparr>client := (client s)(c := C1)\<rparr>;
               s2 = (if (arrange (lt M (sellt M)) = None \<or> isfloating C1) \<and> \<not> isfullscreen C1
                     then resize s1 c (x C1) (y C1) (w C1) (h C1) False else s1)
           in showhide s2 cs)
        else showhide s cs)"

text \<open>Decimal digits of a number, as \<open>snprintf\<close> prints it for \<open>%d\<close>.\<close>

function show_nat :: "nat \<Rightarrow> string" where
  "show_nat n = (if n < 10 then [''0123456789'' ! n]
                 else show_nat (n div 10) @ [''0123456789'' ! (n mod 10)])"
  by pat_completeness auto
termination
  by (relation "measure (\<lambda>n. n)") auto

declare show_nat.simps [simp del]

text \<open>
  The loop of \<open>monocle\<close> steps with \<open>nexttiled\<close> from \<open>cl->clients\<close> to the end of the
  chain: it visits, in list order, every client that does not float and is visible on
  \<open>m\<close>, and resizes it. \<open>ltsymbol\<close> has 16 bytes, so \<open>snprintf\<close> keeps at most 15
  characters.
\<close>

fun monocle_loop :: "State \<Rightarrow> mref \<Rightarrow> cref list \<Rightarrow> State" where
  "monocle_loop s m [] = s"
| "monocle_loop s m (c # cs) =
    (if isfloating (client s c) \<or> \<not> ISVISIBLE (client s c) (monitor s m)
     then monocle_loop s m cs
     else monocle_loop
            (resize s c (wx (monitor s m)) (wy (monitor s m))
               (ww (monitor s m) - 2 * bw (client s c))
               (wh (monitor s m) - 2 * bw (client s c)) False) m cs)"

definition monocle :: "State \<Rightarrow> mref \<Rightarrow> State" where
  "monocle s m =
    (let n = length (filter (\<lambda>c. ISVISIBLE (client s c) (monitor s m)) (clients (cl s)));
         s1 = (if n > 0
               then s\<lparr>monitor := (monitor s)(m := (monitor s m)
                         \<lparr>ltsymbol := take 15 (''['' @ show_nat n @ '']'')\<rparr>)\<rparr>
               else s)
     in monocle_loop s1 m (clients (cl s1)))"

text \<open>
  Modelled from the spec: running a layout function of vanitygaps.c. It is given the
  monitor's parameters and the clients that do not float and are visible on \<open>m\<close>, may
  override the symbol, and every client it places goes through \<open>resize\<close> with
  \<open>interact = 0\<close>.
\<close>

definition ext_layout ::
  "(LayoutArg \<Rightarrow> string option \<times> rect list) \<Rightarrow> State \<Rightarrow> mref \<Rightarrow> State" where
  "ext_layout f s m =
    (let M = monitor s m;
         ts = filter (\<lambda>c. \<not> isfloating (client s c) \<and> ISVISIBLE (client s c) M) (clients (cl s));
         (sym, rs) = f \<lparr>la_area = (wx M, wy M, ww M, wh M),
                        la_gaps = (gappih M, gappiv M, gappoh M, gappov M),
                        la_mfact = mfact M, la_nmaster = nmaster M,
                        la_bws = map (\<lambda>c. bw (client s c)) ts\<rparr>;
         s1 = (case sym of None \<Rightarrow> s
               | Some t \<Rightarrow> s\<lparr>monitor := (monitor s)(m := M\<lparr>ltsymbol := take 15 t\<rparr>)\<rparr>)
     in fold (\<lambda>(c, (x0, y0, w0, h0)) s'. resize s' c x0 y0 w0 h0 False) (zip ts rs) s1)"

definition arrangemon :: "State \<Rightarrow> mref \<Rightarrow> State" where
  "arrangemon s m =
    (let M = monitor s m;
         s1 = s\<lparr>monitor := (monitor s)(m := M\<lparr>ltsymbol := take 16 (symbol (lt M (sellt M)))\<rparr>)\<rparr>
     in case arrange (lt M (sellt M)) of
          None \<Rightarrow> s1
        | Some monocle_fn \<Rightarrow> monocle s1 m
        | Some (ext_fn f) \<Rightarrow> ext_layout f s1 m)"

text \<open>
  \<open>restack\<close> draws the bar, restacks the X windows and warps the pointer: it changes
  nothing of the modelled state.
\<close>

definition restack :: "State \<Rightarrow> mref \<Rightarrow> State" where
  "restack s m = s"

text \<open>\<open>arrange(m)\<close>; the argument is \<open>None\<close> for a NULL monitor.\<close>

definition arrange' :: "State \<Rightarrow> mref option \<Rightarrow> State" where
  "arrange' s mo =
    (case mo of
       Some m \<Rightarrow> restack (arrangemon (showhide s (stack (cl s))) m) m
     | None \<Rightarrow> fold (\<lambda>m s'. arrangemon s' m) (mons s)
                 (fold (\<lambda>m s'. showhide s' (stack (cl s'))) (mons s) s))"

section \<open>Fullscreen\<close>

text \<open>The \<open>XChangeProperty\<close> and \<open>XRaiseWindow\<close> calls only talk to the server.\<close>

definition setfullscreen :: "State \<Rightarrow> cref \<Rightarrow> bool \<Rightarrow> State" where
  "setfullscreen s c fullscreen =
    (let C = client s c
     in if fullscreen \<and> \<not> isfullscreen C then
          (let C1 = C\<lparr>isfullscreen := True, oldstate := isfloating C, oldbw := bw C,
                      bw := 0, isfloating := True\<rparr>;
               s1 = s\<lparr>client := (client s)(c := C1)\<rparr>;
               M = monitor s1 (mon C1)
           in resizeclient s1 c (mx M) (my M) (mw M) (mh M))
        else if \<not> fullscreen \<and> isfullscreen C then
          (let C1 = C\<lparr>isfullscreen := False, isfloating := oldstate C, bw := oldbw C,
                      x := oldx C, y := oldy C, w := oldw C, h := oldh C\<rparr>;
               s1 = s\<lparr>client := (client s)(c := C1)\<rparr>
           in arrange' (resizeclient s1 c (x C1) (y C1) (w C1) (h C1)) (Some (mon C1)))
        else s)"

section \<open>Client lists, focus and the tag views\<close>

text \<open>
  \<open>attach\<close> and \<open>attachstack\<close> put the client at the head of the chain. \<open>detach\<close> and
  \<open>detachstack\<close> unlink the node that is the client; these are applied to clients of the
  list (for a client that is not in the chain the C code would store \<open>c->next\<close> in the
  link that ends the chain).
\<close>

definition attach :: "State \<Rightarrow> cref \<Rightarrow> State" where
  "attach s c = s\<lparr>cl := (cl s)\<lparr>clients := c # clients (cl s)\<rparr>\<rparr>"

definition attachstack :: "State \<Rightarrow> cref \<Rightarrow> State" where
  "attachstack s c = s\<lparr>cl := (cl s)\<lparr>stack := c # stack (cl s)\<rparr>\<rparr>"

definition detach :: "State \<Rightarrow> cref \<Rightarrow> State" where
  "detach s c = s\<lparr>cl := (cl s)\<lparr>clients := remove1 c (clients (cl s))\<rparr>\<rparr>"

definition detachstack :: "State \<Rightarrow> cref \<Rightarrow> State" where
  "detachstack s c =
    (let s1 = s\<lparr>cl := (cl s)\<lparr>stack := remove1 c (stack (cl s))\<rparr>\<rparr>;
         m = mon (client s1 c)
     in if sel (monitor s1 m) = Some c
        then s1\<lparr>monitor := (monitor s1)(m := (monitor s1 m)
                 \<lparr>sel := find (\<lambda>t. ISVISIBLE (client s1 t) (monitor s1 m)) (stack (cl s1))\<rparr>)\<rparr>
        else s1)"

text \<open>
  \<open>unfocus\<close> only talks to the server (button grabs, border colour, input focus);
  \<open>seturgent\<close> stores the flag and updates the window's hints on the server.
\<close>

definition unfocus :: "State \<Rightarrow> cref option \<Rightarrow> bool \<Rightarrow> State" where
  "unfocus s c setfocus = s"

definition seturgent :: "State \<Rightarrow> cref \<Rightarrow> bool \<Rightarrow> State" where
  "seturgent s c urg = s\<lparr>client := (client s)(c := (client s c)\<lparr>isurgent := urg\<rparr>)\<rparr>"

text \<open>\<open>focus(c)\<close>; \<open>None\<close> is \<open>focus(NULL)\<close>.\<close>

definition focus :: "State \<Rightarrow> cref option \<Rightarrow> State" where
  "focus s co =
    (let s1 = (case co of
                 Some c \<Rightarrow> if mon (client s c) \<noteq> selmon s then s\<lparr>selmon := mon (client s c)\<rparr> else s
               | None \<Rightarrow> s);
         vis = (\<lambda>d. ISVISIBLE (client s1 d) (monitor s1 (selmon s1)));
         co1 = (case co of
                  Some c \<Rightarrow> if vis c then Some c else find vis (stack (cl s1))
                | None \<Rightarrow> find vis (stack (cl s1)));
         s2 = (if sel (monitor s1 (selmon s1)) \<noteq> None \<and> sel (monitor s1 (selmon s1)) \<noteq> co1
               then unfocus s1 (sel (monitor s1 (selmon s1))) False else s1);
         s3 = (case co1 of
                 Some c \<Rightarrow>
                   (let t1 = (if mon (client s2 c) \<noteq> selmon s2
                              then s2\<lparr>selmon := mon (client s2 c)\<rparr> else s2);
                        t2 = (if isurgent (client t1 c) then seturgent t1 c False else t1)
                    in attachstack (detachstack t2 c) c)
               | None \<Rightarrow> s2)
     in s3\<lparr>monitor := (monitor s3)(selmon s3 := (monitor s3 (selmon s3))\<lparr>sel := co1\<rparr>)\<rparr>)"

text \<open>
  \<open>attachclients(m)\<close>: the tags shown by the other monitors are collected; every client
  of the list that is visible on \<open>m\<close> loses the tags shown elsewhere and gets \<open>m\<close> as its
  monitor; if any client lost tags, the other monitors are arranged.
\<close>

fun attachclients_loop :: "State \<Rightarrow> mref \<Rightarrow> 32 word \<Rightarrow> cref list \<Rightarrow> bool \<Rightarrow> State \<times> bool" where
  "attachclients_loop s m utags [] rmons = (s, rmons)"
| "attachclients_loop s m utags (c # cs) rmons =
    (let C = client s c; M = monitor s m
     in if ISVISIBLE C M then
          (let C1 = (if tags C AND utags \<noteq> 0
                     then C\<lparr>tags := tags C AND tagset M (seltags M)\<rparr> else C);
               r1 = (if tags C AND utags \<noteq> 0 then True else rmons);
               s1 = unfocus (s\<lparr>client := (client s)(c := C1)\<rparr>) (Some c) True;
               s2 = s1\<lparr>client := (client s1)(c := (client s1 c)\<lparr>mon := m\<rparr>)\<rparr>
           in attachclients_loop s2 m utags cs r1)
        else attachclients_loop s m utags cs rmons)"

definition attachclients :: "State \<Rightarrow> mref option \<Rightarrow> State" where
  "attachclients s mo =
    (case mo of
       None \<Rightarrow> s
     | Some m \<Rightarrow>
        (let utags = fold (\<lambda>tm u. if tm \<noteq> m
                             then u OR tagset (monitor s tm) (seltags (monitor s tm)) else u)
                       (mons s) 0;
             (s1, rmons) = attachclients_loop s m utags (clients (cl s)) False
         in if rmons
            then fold (\<lambda>tm s'. if tm \<noteq> m then arrange' s' (Some tm) else s') (mons s1) s1
            else s1))"

text \<open>
  \<open>findfirstunusedtag\<close>: \<open>occupied\<close> and \<open>i\<close> are C \<open>int\<close>s, compared as signed values;
  \<open>i\<close> runs through the powers of two \<open>1 << k\<close> (after 32 shifts it is 0).
\<close>

function findfirstunusedtag_loop :: "32 word \<Rightarrow> nat \<Rightarrow> 32 word" where
  "findfirstunusedtag_loop occupied k =
    (if k < 32 \<and> (push_bit k 1 :: 32 word) <s occupied
     then (if (push_bit k 1 :: 32 word) AND occupied = 0 then push_bit k 1
           else findfirstunusedtag_loop occupied (Suc k))
     else 0)"
  by pat_completeness auto
termination
  by (relation "measure (\<lambda>(occupied, k). 32 - k)") auto

declare findfirstunusedtag_loop.simps [simp del]

definition findfirstunusedtag :: "State \<Rightarrow> 32 word" where
  "findfirstunusedtag s =
    (let occupied = fold (\<lambda>m oc. oc OR tagset (monitor s m) (seltags (monitor s m))) (mons s) 0
     in findfirstunusedtag_loop occupied 0)"

text \<open>
  \<open>toggleview\<close> and \<open>view\<close> take the \<open>ui\<close> member of their argument.
  \<open>updatecurrentdesktop\<close>, \<open>warp\<close> and \<open>XRaiseWindow\<close> only talk to the server.
\<close>

fun toggleview_loop :: "State \<Rightarrow> 32 word \<Rightarrow> 32 word \<Rightarrow> mref list \<Rightarrow> State" where
  "toggleview_loop s ui newtagset [] = s"
| "toggleview_loop s ui newtagset (m # ms) =
    (let M = monitor s m
     in if m \<noteq> selmon s \<and> newtagset AND tagset M (seltags M) \<noteq> 0 then
          (let M1 = M\<lparr>tagset := (tagset M)(seltags M := tagset M (seltags M) XOR (ui AND TAGMASK))\<rparr>;
               s1 = s\<lparr>monitor := (monitor s)(m := M1)\<rparr>;
               M2 = (if tagset M1 (seltags M1) = 0
                     then M1\<lparr>tagset := (tagset M1)(seltags M1 :=
                              tagset M1 (seltags M1) OR findfirstunusedtag s1)\<rparr>
                     else M1);
               s2 = s1\<lparr>monitor := (monitor s1)(m := M2\<lparr>sel := None\<rparr>)\<rparr>
           in toggleview_loop (arrange' (attachclients s2 (Some m)) (Some m)) ui newtagset ms)
        else toggleview_loop s ui newtagset ms)"

definition toggleview :: "State \<Rightarrow> 32 word \<Rightarrow> State" where
  "toggleview s ui =
    (let S = monitor s (selmon s);
         newtagset = tagset S (seltags S) XOR (ui AND TAGMASK);
         s1 = toggleview_loop s ui newtagset (mons s);
         S1 = monitor s1 (selmon s1);
         s2 = s1\<lparr>monitor := (monitor s1)(selmon s1 :=
                  S1\<lparr>tagset := (tagset S1)(seltags S1 := newtagset)\<rparr>)\<rparr>
     in focus (arrange' (attachclients s2 (Some (selmon s2))) (Some (selmon s2))) None)"

text \<open>
  The first loop of \<open>view\<close>: \<open>None\<close> is the \<open>return\<close> inside the loop, \<open>Some\<close> the state
  after the loop (left by \<open>break\<close> or at the end of the chain).
\<close>

fun view_swap :: "State \<Rightarrow> 32 word \<Rightarrow> mref list \<Rightarrow> State option" where
  "view_swap s newtagset [] = Some s"
| "view_swap s newtagset (m # ms) =
    (let M = monitor s m; S = monitor s (selmon s)
     in if m \<noteq> selmon s \<and> newtagset AND tagset M (seltags M) \<noteq> 0 then
          (if newtagset AND tagset S (seltags S) \<noteq> 0 then None
           else (let k = seltags M XOR 1;
                     M1 = M\<lparr>sel := sel S, seltags := k,
                            tagset := (tagset M)(k := tagset S (seltags S))\<rparr>;
                     s1 = s\<lparr>monitor := (monitor s)(m := M1)\<rparr>
                 in Some (arrange' (attachclients s1 (Some m)) (Some m))))
        else view_swap s newtagset ms)"

text \<open>The loop over the client list that clears \<open>isfullscreen\<close> and toggles \<open>fs\<close>.\<close>

fun view_fs :: "State \<Rightarrow> 32 word \<Rightarrow> cref list \<Rightarrow> cref option \<Rightarrow> State \<times> cref option" where
  "view_fs s newtagset [] fs = (s, fs)"
| "view_fs s newtagset (c # cs) fs =
    (if \<not> (isfullscreen (client s c) \<and> tags (client s c) AND newtagset \<noteq> 0)
     then view_fs s newtagset cs fs
     else view_fs (s\<lparr>client := (client s)(c := (client s c)\<lparr>isfullscreen := False\<rparr>)\<rparr>)
            newtagset cs (case fs of Some _ \<Rightarrow> None | None \<Rightarrow> Some c))"

definition view :: "State \<Rightarrow> 32 word \<Rightarrow> State" where
  "view s ui =
    (let S = monitor s (selmon s)
     in if ui \<noteq> 0 \<and> ui AND TAGMASK = tagset S (seltags S) then s
        else
          (let newtagset = (if ui AND TAGMASK \<noteq> 0 then ui AND TAGMASK
                            else tagset S (seltags S XOR 1))
           in case view_swap s newtagset (mons s) of
                None \<Rightarrow> s
              | Some s1 \<Rightarrow>
                 (let S1 = monitor s1 (selmon s1);
                      k = seltags S1 XOR 1;
                      S2 = S1\<lparr>seltags := k\<rparr>;
                      S3 = (if ui AND TAGMASK \<noteq> 0
                            then S2\<lparr>tagset := (tagset S2)(k := ui AND TAGMASK)\<rparr> else S2);
                      s2 = s1\<lparr>monitor := (monitor s1)(selmon s1 := S3)\<rparr>;
                      (s3, fs) = view_fs s2 newtagset (clients (cl s2)) None;
                      s4 = arrange' (attachclients s3 (Some (selmon s3))) (Some (selmon s3));
                      s5 = (case fs of
                              None \<Rightarrow> s4
                            | Some f \<Rightarrow>
                               (let t = s4\<lparr>client := (client s4)(f := (client s4 f)
                                            \<lparr>isfullscreen := True\<rparr>)\<rparr>;
                                    F = monitor t (mon (client t f))
                                in resizeclient t f (mx F) (my F) (mw F) (mh F)))
                  in focus s5 None)))"

section \<open>EWMH client lists and swallowing\<close>

text \<open>
  \<open>updateclientlist\<close> deletes each property and appends, for every monitor of \<open>mons\<close> in
  turn, the windows of \<open>m->cl->clients\<close>, then of \<open>m->cl->stack\<close>.
\<close>

definition updateclientlist :: "State \<Rightarrow> State" where
  "updateclientlist s =
    (let s1 = s\<lparr>NetClientList := []\<rparr>;
         s2 = fold (\<lambda>m t. fold (\<lambda>c t'. t'\<lparr>NetClientList := NetClientList t' @ [win (client t' c)]\<rparr>)
                            (clients (cl t)) t) (mons s1) s1;
         s3 = s2\<lparr>NetClientListStacking := []\<rparr>
     in fold (\<lambda>m t. fold (\<lambda>c t'. t'\<lparr>NetClientListStacking :=
                                      NetClientListStacking t' @ [win (client t' c)]\<rparr>)
                        (stack (cl t)) t) (mons s3) s3)"

text \<open>
  \<open>updatetitle\<close> reads the window's title from the server into the 256 bytes of \<open>name\<close>
  and replaces an empty title by \<open>broken\<close>.
\<close>

definition updatetitle :: "State \<Rightarrow> cref \<Rightarrow> State" where
  "updatetitle s c =
    (let t = take 255 (xtitle s (win (client s c)))
     in s\<lparr>client := (client s)(c := (client s c)\<lparr>name := (if t = [] then ''broken'' else t)\<rparr>)\<rparr>)"

text \<open>
  \<open>swallow(p, c)\<close>. \<open>swallowfloating\<close> is a configuration variable that config.h does
  not define; it is a parameter. \<open>setclientstate\<close>, \<open>XUnmapWindow\<close>,
  \<open>XMoveResizeWindow\<close> and \<open>configure\<close> only talk to the server.
\<close>

definition swallow :: "bool \<Rightarrow> State \<Rightarrow> cref \<Rightarrow> cref \<Rightarrow> State" where
  "swallow swallowfloating s p c =
    (if noswallow (client s c) \<or> isterminal (client s c) then s
     else if noswallow (client s c) \<and> \<not> swallowfloating \<and> isfloating (client s c) then s
     else
       (let s1 = detachstack (detach s c) c;
            s2 = s1\<lparr>client := (client s1)(p := (client s1 p)\<lparr>swallowing := Some c\<rparr>)\<rparr>;
            s3 = s2\<lparr>client := (client s2)(c := (client s2 c)\<lparr>mon := mon (client s2 p)\<rparr>)\<rparr>;
            wp = win (client s3 p);
            s4 = s3\<lparr>client := (client s3)(p := (client s3 p)\<lparr>win := win (client s3 c)\<rparr>)\<rparr>;
            s5 = s4\<lparr>client := (client s4)(c := (client s4 c)\<lparr>win := wp\<rparr>)\<rparr>;
            s6 = updatetitle s5 p;
            s7 = arrange' s6 (Some (mon (client s6 p)))
        in updateclientlist s7))"

section \<open>Auxiliary notions and example states\<close>

definition tiled_on :: "State \<Rightarrow> mref \<Rightarrow> cref \<Rightarrow> bool" where
  "tiled_on s m c \<longleftrightarrow> \<not> isfloating (client s c) \<and> ISVISIBLE (client s c) (monitor s m)"

definition border_elided :: "State \<Rightarrow> cref \<Rightarrow> bool" where
  "border_elided s c =
    (let C = client s c; M = monitor s (mon C)
     in arrange (lt M (sellt M)) \<noteq> None \<and> \<not> isfloating C \<and> \<not> isfullscreen C
        \<and> (filter (tiled_on s (mon C)) (clients (cl s)) = [c]
            \<or> is_monocle (arrange (lt M (sellt M)))))"

definition Client0 :: Client where
  "Client0 = \<lparr>name = [], mina = 0, maxa = 0, x = 0, y = 0, w = 0, h = 0,
     oldx = 0, oldy = 0, oldw = 0, oldh = 0, basew = 0, baseh = 0, incw = 0, inch = 0,
     maxw = 0, maxh = 0, minw = 0, minh = 0, bw = 0, oldbw = 0, tags = 0,
     isfixed = False, isfloating = False, isurgent = False, neverfocus = False,
     oldstate = False, isfullscreen = False, ignoresizehints = False, beingmoved = False,
     isterminal = False, noswallow = False, pid = 0, swallowing = None, mon = 0, win = 0\<rparr>"

definition layout_floating :: Layout where
  "layout_floating = \<lparr>symbol = ''><>'', arrange = None\<rparr>"

definition layout_monocle :: Layout where
  "layout_monocle = \<lparr>symbol = ''[M]'', arrange = Some monocle_fn\<rparr>"

definition Monitor0 :: Monitor where
  "Monitor0 = \<lparr>ltsymbol = [], mfact = 0, nmaster = 0, num = 0, mx = 0, my = 0, mw = 0, mh = 0,
     wx = 0, wy = 0, ww = 0, wh = 0, gappih = 0, gappiv = 0, gappoh = 0, gappov = 0,
     seltags = 0, sellt = 0, tagset = (\<lambda>_. 0), showbar = False, sel = None,
     lt = (\<lambda>_. layout_floating)\<rparr>"

definition State0 :: State where
  "State0 = \<lparr>mons = [], selmon = 0, cl = \<lparr>clients = [], stack = []\<rparr>,
     client = (\<lambda>_. Client0), monitor = (\<lambda>_. Monitor0), sw = 1920, sh = 1080, bh = 20,
     NetClientList = [], NetClientListStacking = [], xconfigured = (\<lambda>_. None),
     xtitle = (\<lambda>_. [])\<rparr>"

definition mon_monocle :: Monitor where
  "mon_monocle = Monitor0\<lparr>ltsymbol := ''[M]'', mfact := 11 / 20, nmaster := 1,
     mw := 1920, mh := 1080, wy := 20, ww := 1920, wh := 1060,
     gappih := 20, gappiv := 20, gappoh := 10, gappov := 30,
     tagset := (\<lambda>_. 1), showbar := True, lt := (\<lambda>_. layout_monocle)\<rparr>"

definition st_one :: State where
  "st_one = State0\<lparr>mons := [0], cl := \<lparr>clients = [1], stack = [1]\<rparr>,
     client := (\<lambda>_. Client0)(1 := Client0\<lparr>x := 10, y := 30, w := 300, h := 200, bw := 2,
        tags := 1, win := 7\<rparr>),
     monitor := (\<lambda>_. Monitor0)(0 := mon_monocle)\<rparr>"


definition st_hidden :: State where
  "st_hidden = st_one\<lparr>client := (client st_one)(1 := (client st_one 1)\<lparr>tags := 2\<rparr>)\<rparr>"

definition monocle_ready :: "State \<Rightarrow> mref \<Rightarrow> cref \<Rightarrow> bool" where
  "monocle_ready s m c \<longleftrightarrow>
     mon (client s c) = m \<and> \<not> isfloating (client s c) \<and> ISVISIBLE (client s c) (monitor s m)
     \<and> \<not> isfullscreen (client s c) \<and> \<not> beingmoved (client s c)
     \<and> is_monocle (arrange (lt (monitor s m) (sellt (monitor s m))))
     \<and> 0 \<le> bw (client s c)
     \<and> max 1 (bh s) \<le> ww (monitor s m) - 2 * bw (client s c)
     \<and> max 1 (bh s) \<le> wh (monitor s m) - 2 * bw (client s c)"

definition monocle_placed :: "Monitor \<Rightarrow> Client \<Rightarrow> Client \<Rightarrow> bool" where
  "monocle_placed M C C' \<longleftrightarrow>
     x C' = wx M \<and> y C' = wy M
     \<and> w C' = (if x C = wx M \<and> y C = wy M \<and> w C = ww M - 2 * bw C \<and> h C = wh M - 2 * bw C
               then ww M - 2 * bw C else ww M)
     \<and> h C' = (if x C = wx M \<and> y C = wy M \<and> w C = ww M - 2 * bw C \<and> h C = wh M - 2 * bw C
               then wh M - 2 * bw C else wh M)
     \<and> bw C' = bw C"

definition mon_tag :: "32 word \<Rightarrow> Monitor" where
  "mon_tag t = mon_monocle\<lparr>tagset := (\<lambda>_. t)\<rparr>"

definition shown_tags :: "Monitor \<Rightarrow> 32 word" where
  "shown_tags M = tagset M (seltags M)"

definition st_two_mons :: State where
  "st_two_mons = State0\<lparr>mons := [0, 1], selmon := 0,
     monitor := (\<lambda>_. Monitor0)(0 := mon_tag 1, 1 := (mon_tag 2)\<lparr>num := 1, mx := 1920, wx := 1920\<rparr>)\<rparr>"

definition st_two_mons_one_client :: State where
  "st_two_mons_one_client = st_two_mons\<lparr>cl := \<lparr>clients = [1], stack = [1]\<rparr>,
     client := (\<lambda>_. Client0)(1 := Client0\<lparr>x := 0, y := 20, w := 1920, h := 1060, bw := 2,
        tags := 1, win := 7\<rparr>)\<rparr>"

definition st_three_fs :: State where
  "st_three_fs = State0\<lparr>mons := [0], selmon := 0,
     cl := \<lparr>clients = [3, 2, 1], stack = [3, 2, 1]\<rparr>,
     client := (\<lambda>_. Client0)
       (1 := Client0\<lparr>w := 1920, h := 1080, oldbw := 2, tags := 1, isfloating := True,
               isfullscreen := True, win := 11\<rparr>,
        2 := Client0\<lparr>w := 1920, h := 1080, oldbw := 2, tags := 2, isfloating := True,
               isfullscreen := True, win := 12\<rparr>,
        3 := Client0\<lparr>w := 1920, h := 1080, oldbw := 2, tags := 4, isfloating := True,
               isfullscreen := True, win := 13\<rparr>),
     monitor := (\<lambda>_. Monitor0)(0 := mon_tag 8)\<rparr>"

definition geom_erase :: "Client \<Rightarrow> Client" where
  "geom_erase C = C\<lparr>x := 0, y := 0, w := 0, h := 0, oldx := 0, oldy := 0, oldw := 0, oldh := 0\<rparr>"

definition geom_rel :: "State \<Rightarrow> State \<Rightarrow> bool" where
  "geom_rel s t \<longleftrightarrow>
     mons t = mons s \<and> selmon t = selmon s \<and> cl t = cl s
     \<and> sw t = sw s \<and> sh t = sh s \<and> bh t = bh s
     \<and> NetClientList t = NetClientList s \<and> NetClientListStacking t = NetClientListStacking s
     \<and> xtitle t = xtitle s
     \<and> (\<forall>m. (monitor t m)\<lparr>ltsymbol := []\<rparr> = (monitor s m)\<lparr>ltsymbol := []\<rparr>)
     \<and> (\<forall>c. geom_erase (client t c) = geom_erase (client s c))"

definition st_swallow :: State where
  "st_swallow = State0\<lparr>mons := [0], selmon := 0,
     cl := \<lparr>clients = [1, 2], stack = [1, 2]\<rparr>,
     client := (\<lambda>_. Client0)
       (1 := Client0\<lparr>x := 100, y := 100, w := 640, h := 480, bw := 2, tags := 1, pid := 200,
               win := 7\<rparr>,
        2 := Client0\<lparr>x := 0, y := 20, w := 1920, h := 1060, bw := 2, tags := 1, pid := 100,
               isterminal := True, win := 20\<rparr>),
     monitor := (\<lambda>_. Monitor0)(0 := mon_monocle\<lparr>sel := Some 1\<rparr>),
     NetClientList := [20, 7], NetClientListStacking := [7, 20],
     xtitle := (\<lambda>_. [])(7 := ''gui'', 20 := ''term'')\<rparr>"

text \<open>
  \<open>setmfact\<close> takes the \<open>f\<close> member of its argument (\<open>None\<close> for a NULL argument). The sum
  and the difference are computed in floating point: \<open>fadd\<close> and \<open>fsub\<close> stand for the
  rounded operations, whatever the rounding is. The comparisons with 1.0, 0.05 and 0.95 are
  exact.
\<close>

definition setmfact ::
  "(real \<Rightarrow> real \<Rightarrow> real) \<Rightarrow> (real \<Rightarrow> real \<Rightarrow> real) \<Rightarrow> State \<Rightarrow> real option \<Rightarrow> State" where
  "setmfact fadd fsub s arg =
    (case arg of
       None \<Rightarrow> s
     | Some a \<Rightarrow>
        (let S = monitor s (selmon s)
         in if arrange (lt S (sellt S)) = None then s
            else (let f = (if a < 1 then fadd a (mfact S) else fsub a 1)
                  in if f < 5 / 100 \<or> f > 95 / 100 then s
                     else arrange' (s\<lparr>monitor := (monitor s)(selmon s := S\<lparr>mfact := f\<rparr>)\<rparr>)
                            (Some (selmon s)))))"

section \<open>The float-position language: sscanf, getfloatpos, setfloatpos\<close>
















text \<open>
  What the tag views rest on: \<open>view_rel s t\<close> says that \<open>t\<close> has the monitors, the selected
  monitor and the client lists of \<open>s\<close>, and that every monitor shows in \<open>t\<close> what it shows
  in \<open>s\<close>.
\<close>

definition view_rel :: "State \<Rightarrow> State \<Rightarrow> bool" where
  "view_rel s t \<longleftrightarrow>
     mons t = mons s \<and> selmon t = selmon s \<and> cl t = cl s
     \<and> (\<forall>m. tagset (monitor t m) = tagset (monitor s m)
            \<and> seltags (monitor t m) = seltags (monitor s m))"

definition on_own_monitor :: "State \<Rightarrow> mref \<Rightarrow> cref \<Rightarrow> bool" where
  "on_own_monitor s m c \<longleftrightarrow>
     (ISVISIBLE (client s c) (monitor s m) \<longrightarrow> mon (client s c) = m)"






definition st_moved :: State where
  "st_moved = st_one\<lparr>client := (client st_one)(1 := (client st_one 1)\<lparr>beingmoved := True\<rparr>)\<rparr>"

section \<open>Properties\<close>

lemma nexttiled_None: "nexttiled s cs m = None \<longleftrightarrow> filter (tiled_on s m) cs = []"
  by (induction cs) (auto simp: tiled_on_def)

lemma nexttiled_Some:
  "nexttiled s cs m = Some c \<Longrightarrow>
     \<exists>pre rest. cs = pre @ c # rest \<and> filter (tiled_on s m) pre = [] \<and> tiled_on s m c"
proof (induction cs)
  case Nil
  then show ?case by simp
next
  case (Cons a cs)
  show ?case
  proof (cases "tiled_on s m a")
    case True
    with Cons.prems have "a = c" by (simp add: tiled_on_def)
    with True show ?thesis by (intro exI [of _ "[]"] exI [of _ cs]) simp
  next
    case False
    with Cons.prems have "nexttiled s cs m = Some c" by (auto simp: tiled_on_def)
    from Cons.IH [OF this] obtain pre rest
      where "cs = pre @ c # rest" "filter (tiled_on s m) pre = []" "tiled_on s m c" by blast
    with False show ?thesis by (intro exI [of _ "a # pre"] exI [of _ rest]) simp
  qed
qed

lemma dropWhile_pre:
  "c \<notin> set pre \<Longrightarrow> dropWhile (\<lambda>d. d \<noteq> c) (pre @ c # rest) = c # rest"
  by (induction pre) auto

lemma only_tiled_iff:
  "(nexttiled s cs m = Some c \<and> nexttiled s (tl (dropWhile (\<lambda>d. d \<noteq> c) cs)) m = None)
    \<longleftrightarrow> filter (tiled_on s m) cs = [c]"
proof
  assume a: "nexttiled s cs m = Some c \<and> nexttiled s (tl (dropWhile (\<lambda>d. d \<noteq> c) cs)) m = None"
  then obtain pre rest where p: "cs = pre @ c # rest" "filter (tiled_on s m) pre = []" "tiled_on s m c"
    using nexttiled_Some by blast
  then have "c \<notin> set pre" by (auto simp: filter_empty_conv)
  then have "tl (dropWhile (\<lambda>d. d \<noteq> c) cs) = rest" using p(1) by (simp add: dropWhile_pre)
  with a have "filter (tiled_on s m) rest = []" by (simp add: nexttiled_None)
  with p show "filter (tiled_on s m) cs = [c]" by simp
next
  assume f: "filter (tiled_on s m) cs = [c]"
  then show "nexttiled s cs m = Some c \<and> nexttiled s (tl (dropWhile (\<lambda>d. d \<noteq> c) cs)) m = None"
  proof (induction cs)
    case Nil
    then show ?case by simp
  next
    case (Cons a cs)
    show ?case
    proof (cases "tiled_on s m a")
      case True
      with Cons.prems have "a = c" "filter (tiled_on s m) cs = []" by auto
      with True show ?thesis by (simp add: nexttiled_None tiled_on_def)
    next
      case False
      with Cons.prems have "filter (tiled_on s m) cs = [c]" by simp
      from Cons.IH [OF this] have ih: "nexttiled s cs m = Some c"
        "nexttiled s (tl (dropWhile (\<lambda>d. d \<noteq> c) cs)) m = None" by auto
      have "c \<in> set (filter (tiled_on s m) (a # cs))" using Cons.prems by simp
      then have "tiled_on s m c" by (simp del: filter.simps)
      with False have "a \<noteq> c" by auto
      with False ih show ?thesis by (auto simp: tiled_on_def)
    qed
  qed
qed

lemma nexttiled_client_upd:
  "isfloating C' = isfloating (client s c) \<Longrightarrow> tags C' = tags (client s c) \<Longrightarrow>
   nexttiled (s\<lparr>client := (client s)(c := C')\<rparr>) cs m = nexttiled s cs m"
  by (induction cs) (auto simp: ISVISIBLE_def)

lemma is_monocle_iff: "is_monocle a \<longleftrightarrow> a = Some monocle_fn"
  by (cases a rule: is_monocle.cases) simp_all

lemma resizeclient_cond:
  "((nexttiled s (clients (cl s)) (mon (client s c)) = Some c
       \<and> nexttiled s (c_next s c) (mon (client s c)) = None)
     \<or> is_monocle (arrange (lt (monitor s (mon (client s c))) (sellt (monitor s (mon (client s c)))))))
    \<and> \<not> isfullscreen (client s c) \<and> \<not> isfloating (client s c)
    \<and> arrange (lt (monitor s (mon (client s c))) (sellt (monitor s (mon (client s c))))) \<noteq> None
   \<longleftrightarrow> border_elided s c"
  unfolding border_elided_def Let_def c_next_def only_tiled_iff by blast

lemma resizeclient_unfold:
  "resizeclient s c x0 y0 w0 h0 =
    (let C1 = (client s c)\<lparr>oldx := x (client s c), x := x0, oldy := y (client s c), y := y0,
                oldw := w (client s c), w := w0, oldh := h (client s c), h := h0\<rparr>;
         s1 = s\<lparr>client := (client s)(c := C1)\<rparr>
     in if beingmoved (client s c) then s1
        else if border_elided s c
        then s1\<lparr>client := (client s1)(c := C1\<lparr>w := w0 + bw C1 * 2, h := h0 + bw C1 * 2\<rparr>),
                xconfigured := (xconfigured s1)(win C1 \<mapsto>
                   \<lparr>wc_x = x0, wc_y = y0, wc_width = w0 + bw C1 * 2,
                    wc_height = h0 + bw C1 * 2, wc_border_width = 0\<rparr>)\<rparr>
        else s1\<lparr>xconfigured := (xconfigured s1)(win C1 \<mapsto>
                   \<lparr>wc_x = x0, wc_y = y0, wc_width = w0, wc_height = h0,
                    wc_border_width = bw C1\<rparr>)\<rparr>)"
proof -
  have cond: "(((nexttiled s1 (clients (cl s1)) (mon C1) = Some c
                    \<and> nexttiled s1 (c_next s1 c) (mon C1) = None)
                  \<or> is_monocle (arrange (lt M (sellt M))))
                \<and> \<not> isfullscreen C1 \<and> \<not> isfloating C1
                \<and> arrange (lt M (sellt M)) \<noteq> None) = border_elided s c"
    if "C1 = (client s c)\<lparr>oldx := x (client s c), x := x0, oldy := y (client s c), y := y0,
                oldw := w (client s c), w := w0, oldh := h (client s c), h := h0\<rparr>"
      and "s1 = s\<lparr>client := (client s)(c := C1)\<rparr>" and "M = monitor s1 (mon C1)"
    for C1 s1 M
  proof -
    have n: "nexttiled s1 cs m = nexttiled s cs m" for cs m
      unfolding that(2) by (rule nexttiled_client_upd) (simp_all add: that(1))
    have "c_next s1 c = c_next s c" "clients (cl s1) = clients (cl s)" "mon C1 = mon (client s c)"
      "M = monitor s (mon (client s c))" "isfullscreen C1 = isfullscreen (client s c)"
      "isfloating C1 = isfloating (client s c)"
      by (simp_all add: that c_next_def)
    then show ?thesis
      by (simp only: n resizeclient_cond)
  qed
  show ?thesis
    unfolding resizeclient_def Let_def
    by (subst cond [OF refl refl refl]) simp
qed

text \<open>
  Claim C9, as amended. For a client that is not being moved, \<open>resizeclient\<close> sends the
  requested position; when a layout function is active, the client neither floats nor is
  fullscreen, and it is the only visible tiled client of its monitor or the layout is
  monocle, the border width sent is 0 and the width and height, sent and stored, are the
  requested ones plus twice \<open>c->bw\<close>; in every other case the requested size and \<open>c->bw\<close>
  are sent unchanged. The stored \<open>bw\<close> is never changed. (A client that is being moved only
  has its geometry stored: nothing is sent, and the size is not enlarged.)
\<close>

theorem resizeclient_border:
  "(\<not> beingmoved (client s c) \<longrightarrow>
       xconfigured (resizeclient s c x0 y0 w0 h0) (win (client s c)) =
           Some \<lparr>wc_x = x0, wc_y = y0,
                 wc_width = (if border_elided s c then w0 + 2 * bw (client s c) else w0),
                 wc_height = (if border_elided s c then h0 + 2 * bw (client s c) else h0),
                 wc_border_width = (if border_elided s c then 0 else bw (client s c))\<rparr>
       \<and> w (client (resizeclient s c x0 y0 w0 h0) c) =
           (if border_elided s c then w0 + 2 * bw (client s c) else w0)
       \<and> h (client (resizeclient s c x0 y0 w0 h0) c) =
           (if border_elided s c then h0 + 2 * bw (client s c) else h0)
       \<and> bw (client (resizeclient s c x0 y0 w0 h0) c) = bw (client s c))
   \<and> (beingmoved (client s c) \<longrightarrow>
       xconfigured (resizeclient s c x0 y0 w0 h0) = xconfigured s
       \<and> x (client (resizeclient s c x0 y0 w0 h0) c) = x0
       \<and> y (client (resizeclient s c x0 y0 w0 h0) c) = y0
       \<and> w (client (resizeclient s c x0 y0 w0 h0) c) = w0
       \<and> h (client (resizeclient s c x0 y0 w0 h0) c) = h0
       \<and> bw (client (resizeclient s c x0 y0 w0 h0) c) = bw (client s c))"
  by (simp add: resizeclient_unfold Let_def)

lemmas ex_defs = st_one_def State0_def mon_monocle_def Monitor0_def Client0_def
  layout_monocle_def layout_floating_def

theorem resizeclient_border_witness:
  "\<not> beingmoved (client st_one 1)
   \<and> xconfigured (resizeclient st_one 1 0 20 1916 1056) 7 =
       Some \<lparr>wc_x = 0, wc_y = 20, wc_width = 1920, wc_height = 1060, wc_border_width = 0\<rparr>
   \<and> w (client (resizeclient st_one 1 0 20 1916 1056) 1) = 1920
   \<and> h (client (resizeclient st_one 1 0 20 1916 1056) 1) = 1060
   \<and> bw (client (resizeclient st_one 1 0 20 1916 1056) 1) = 2
   \<and> beingmoved (client st_moved 1)
   \<and> xconfigured (resizeclient st_moved 1 0 20 1916 1056) 7 = None
   \<and> w (client (resizeclient st_moved 1 0 20 1916 1056) 1) = 1916
   \<and> h (client (resizeclient st_moved 1 0 20 1916 1056) 1) = 1056
   \<and> bw (client (resizeclient st_moved 1 0 20 1916 1056) 1) = 2"
proof -
  have h1: "\<not> beingmoved (client st_one 1)"
    by (simp add: ex_defs)
  have h2: "beingmoved (client st_moved 1)"
    by (simp add: st_moved_def ex_defs)
  show ?thesis
    using h1 h2
      resizeclient_border [of st_one 1 0 20 1916 1056, THEN conjunct1, THEN mp, OF h1]
      resizeclient_border [of st_moved 1 0 20 1916 1056, THEN conjunct2, THEN mp, OF h2]
    by (simp add: border_elided_def tiled_on_def ISVISIBLE_def st_moved_def ex_defs)
qed

text \<open>
  Claim C9 as stated fails for a client that is being moved: under the monocle layout, for
  a tiled client with border width 2, the stored width stays the requested 1916 and no
  configuration request reaches the server.
\<close>

theorem resizeclient_beingmoved_counterexample:
  "is_monocle (arrange (lt (monitor st_one 0) (sellt (monitor st_one 0))))
   \<and> \<not> isfloating (client st_one 1) \<and> \<not> isfullscreen (client st_one 1)
   \<and> bw (client st_one 1) = 2
   \<and> w (client (resizeclient (st_one\<lparr>client := (client st_one)(1 := (client st_one 1)\<lparr>beingmoved := True\<rparr>)\<rparr>) 1 0 20 1916 1056) 1) = 1916
   \<and> xconfigured (resizeclient (st_one\<lparr>client := (client st_one)(1 := (client st_one 1)\<lparr>beingmoved := True\<rparr>)\<rparr>) 1 0 20 1916 1056) 7 = None"
  by (simp add: resizeclient_def ex_defs)

lemma tiled_on_client_upd:
  "isfloating C' = isfloating (client s c) \<Longrightarrow> tags C' = tags (client s c) \<Longrightarrow>
   tiled_on (s\<lparr>client := (client s)(c := C')\<rparr>) m = tiled_on s m"
  by (rule ext) (simp add: tiled_on_def ISVISIBLE_def)

lemma border_elided_client_upd:
  "isfloating C' = isfloating (client s c) \<Longrightarrow> tags C' = tags (client s c) \<Longrightarrow>
   isfullscreen C' = isfullscreen (client s c) \<Longrightarrow> mon C' = mon (client s c) \<Longrightarrow>
   border_elided (s\<lparr>client := (client s)(c := C')\<rparr>) c = border_elided s c"
  by (simp add: border_elided_def Let_def tiled_on_client_upd)

lemma border_elided_xconfigured [simp]:
  "border_elided (t\<lparr>xconfigured := X\<rparr>) c = border_elided t c"
  by (simp add: border_elided_def Let_def tiled_on_def [abs_def])

lemma border_elided_fullscreen:
  "isfullscreen (client s c) \<Longrightarrow> \<not> border_elided s c"
  by (simp add: border_elided_def)





lemmas eval_defs = setfullscreen_def Let_def resizeclient_def arrange'_def
      arrangemon_def monocle_def restack_def ISVISIBLE_def c_next_def resize_def
      applysizehints_def sizehints_def WIDTH_def HEIGHT_def SPTAGMASK_def LENGTH_tags_def
      LENGTH_scratchpads_def resizehints_def border_elided_def tiled_on_def


lemma resizeclient_frame:
  "cl (resizeclient s c x0 y0 w0 h0) = cl s"
  "monitor (resizeclient s c x0 y0 w0 h0) = monitor s"
  "mons (resizeclient s c x0 y0 w0 h0) = mons s"
  "selmon (resizeclient s c x0 y0 w0 h0) = selmon s"
  "sw (resizeclient s c x0 y0 w0 h0) = sw s"
  "sh (resizeclient s c x0 y0 w0 h0) = sh s"
  "bh (resizeclient s c x0 y0 w0 h0) = bh s"
  "NetClientList (resizeclient s c x0 y0 w0 h0) = NetClientList s"
  "NetClientListStacking (resizeclient s c x0 y0 w0 h0) = NetClientListStacking s"
  "xtitle (resizeclient s c x0 y0 w0 h0) = xtitle s"
  by (simp_all add: resizeclient_unfold Let_def)

lemma resizeclient_other:
  "d \<noteq> c \<Longrightarrow> client (resizeclient s c x0 y0 w0 h0) d = client s d"
  by (simp add: resizeclient_unfold Let_def)

lemma resize_frame:
  "cl (resize s c x0 y0 w0 h0 i) = cl s"
  "monitor (resize s c x0 y0 w0 h0 i) = monitor s"
  "mons (resize s c x0 y0 w0 h0 i) = mons s"
  "selmon (resize s c x0 y0 w0 h0 i) = selmon s"
  "sw (resize s c x0 y0 w0 h0 i) = sw s"
  "sh (resize s c x0 y0 w0 h0 i) = sh s"
  "bh (resize s c x0 y0 w0 h0 i) = bh s"
  "NetClientList (resize s c x0 y0 w0 h0 i) = NetClientList s"
  "NetClientListStacking (resize s c x0 y0 w0 h0 i) = NetClientListStacking s"
  "xtitle (resize s c x0 y0 w0 h0 i) = xtitle s"
  by (simp_all add: resize_def resizeclient_frame split: prod.splits)

lemma resize_other:
  "d \<noteq> c \<Longrightarrow> client (resize s c x0 y0 w0 h0 i) d = client s d"
  by (simp add: resize_def resizeclient_other split: prod.splits)

lemma monocle_loop_monitor: "monitor (monocle_loop s m cs) = monitor s"
  by (induction cs arbitrary: s) (simp_all add: resize_frame)

lemma monocle_loop_bh: "bh (monocle_loop s m cs) = bh s"
  by (induction cs arbitrary: s) (simp_all add: resize_frame)

lemma monocle_loop_other:
  "c \<notin> set cs \<Longrightarrow> client (monocle_loop s m cs) c = client s c"
  by (induction cs arbitrary: s) (auto simp: resize_other)

lemma applysizehints_monocle:
  assumes "monocle_ready s m c"
  shows "applysizehints s c (wx (monitor s m)) (wy (monitor s m))
           (ww (monitor s m) - 2 * bw (client s c)) (wh (monitor s m) - 2 * bw (client s c)) False
       = (wx (monitor s m), wy (monitor s m),
          ww (monitor s m) - 2 * bw (client s c), wh (monitor s m) - 2 * bw (client s c),
          \<not> (x (client s c) = wx (monitor s m) \<and> y (client s c) = wy (monitor s m)
             \<and> w (client s c) = ww (monitor s m) - 2 * bw (client s c)
             \<and> h (client s c) = wh (monitor s m) - 2 * bw (client s c)))"
  using assms
  by (auto simp: applysizehints_def monocle_ready_def Let_def resizehints_def is_monocle_iff)

lemma border_elided_monocle:
  "monocle_ready s m c \<Longrightarrow> border_elided s c"
  by (simp add: monocle_ready_def border_elided_def is_monocle_iff)

lemma resize_monocle:
  assumes "monocle_ready s m c"
  shows "monocle_placed (monitor s m) (client s c)
     (client (resize s c (wx (monitor s m)) (wy (monitor s m))
           (ww (monitor s m) - 2 * bw (client s c)) (wh (monitor s m) - 2 * bw (client s c)) False) c)"
  using assms border_elided_monocle [OF assms]
  by (simp add: resize_def applysizehints_monocle resizeclient_unfold Let_def monocle_placed_def)
     (simp add: monocle_ready_def)

lemma monocle_ready_resize_other:
  "d \<noteq> c \<Longrightarrow> monocle_ready (resize s d x0 y0 w0 h0 i) m c = monocle_ready s m c"
  by (simp add: monocle_ready_def resize_frame resize_other)

lemma monocle_loop_placed:
  assumes "monocle_ready s m c" "c \<in> set cs" "distinct cs"
  shows "monocle_placed (monitor s m) (client s c) (client (monocle_loop s m cs) c)"
  using assms
proof (induction cs arbitrary: s)
  case Nil
  then show ?case by simp
next
  case (Cons d cs)
  show ?case
  proof (cases "d = c")
    case True
    with Cons.prems have "c \<notin> set cs" by simp
    moreover from Cons.prems(1) have "\<not> isfloating (client s c)"
      "ISVISIBLE (client s c) (monitor s m)" by (simp_all add: monocle_ready_def)
    ultimately show ?thesis
      using True resize_monocle [OF Cons.prems(1)] by (simp add: monocle_loop_other)
  next
    case False
    with Cons.prems have c: "c \<in> set cs" "distinct cs" by auto
    let ?s' = "resize s d (wx (monitor s m)) (wy (monitor s m))
               (ww (monitor s m) - 2 * bw (client s d))
               (wh (monitor s m) - 2 * bw (client s d)) False"
    have r: "monocle_ready ?s' m c"
      using False Cons.prems(1) by (simp add: monocle_ready_resize_other)
    have keep: "monitor ?s' m = monitor s m" "client ?s' c = client s c"
      using False by (simp_all add: resize_frame resize_other)
    show ?thesis
      using Cons.IH [OF Cons.prems(1) c] Cons.IH [OF r c] keep by simp
  qed
qed

text \<open>
  Claim C4, as amended. Under the monocle layout, a client of the client list that belongs
  to the monitor, is visible on it, neither floats, is fullscreen nor is being moved, and
  whose border fits the work area, is placed at the origin of the work area; its stored
  size is the whole work area, \<open>ww\<close> by \<open>wh\<close> (with the border elided), unless its
  geometry already was \<open>(wx, wy, ww - 2 * bw, wh - 2 * bw)\<close>, which is kept. No gap is
  applied. The layout symbol becomes \<open>[n]\<close>, \<open>n\<close> the number of visible clients of the
  list, when \<open>n > 0\<close>, and is left as it is when \<open>n = 0\<close>.
\<close>

theorem monocle_fills_work_area:
  "(distinct (clients (cl s)) \<and> c \<in> set (clients (cl s)) \<and> monocle_ready s m c \<longrightarrow>
      monocle_placed (monitor s m) (client s c) (client (monocle s m) c))
   \<and> ltsymbol (monitor (monocle s m) m) =
        (if length (filter (\<lambda>c. ISVISIBLE (client s c) (monitor s m)) (clients (cl s))) > 0
         then take 15 (''['' @ show_nat (length (filter (\<lambda>c. ISVISIBLE (client s c) (monitor s m))
                 (clients (cl s)))) @ '']'')
         else ltsymbol (monitor s m))"
proof -
  let ?n = "length (filter (\<lambda>c. ISVISIBLE (client s c) (monitor s m)) (clients (cl s)))"
  let ?s1 = "s\<lparr>monitor := (monitor s)(m := (monitor s m)
                 \<lparr>ltsymbol := take 15 (''['' @ show_nat ?n @ '']'')\<rparr>)\<rparr>"
  have sym: "ltsymbol (monitor (monocle s m) m) =
      (if ?n > 0 then take 15 (''['' @ show_nat ?n @ '']'') else ltsymbol (monitor s m))"
    by (simp add: monocle_def Let_def monocle_loop_monitor)
  have pl: "monocle_placed (monitor s m) (client s c) (client (monocle s m) c)"
    if a: "distinct (clients (cl s))" "c \<in> set (clients (cl s))" "monocle_ready s m c"
  proof -
    have r1: "monocle_ready ?s1 m c"
      using a(3) by (simp add: monocle_ready_def ISVISIBLE_def)
    have p1: "monocle_placed (monitor ?s1 m) = monocle_placed (monitor s m)"
      by (intro ext) (simp add: monocle_placed_def)
    have "monocle_placed (monitor s m) (client s c) (client (monocle_loop ?s1 m (clients (cl s))) c)"
      using monocle_loop_placed [OF r1 a(2,1)] unfolding p1 by simp
    moreover have "monocle_placed (monitor s m) (client s c) (client (monocle_loop s m (clients (cl s))) c)"
      using monocle_loop_placed [OF a(3,2,1)] .
    ultimately show ?thesis
      by (simp add: monocle_def Let_def)
  qed
  show ?thesis
    using sym pl by blast
qed

lemmas eval_monocle = monocle_def monocle_ready_def monocle_placed_def

theorem monocle_fills_work_area_witness:
  "distinct (clients (cl st_one)) \<and> 1 \<in> set (clients (cl st_one)) \<and> monocle_ready st_one 0 1
   \<and> x (client (monocle st_one 0) 1) = 0 \<and> y (client (monocle st_one 0) 1) = 20
   \<and> w (client (monocle st_one 0) 1) = 1920 \<and> h (client (monocle st_one 0) 1) = 1060
   \<and> ltsymbol (monitor (monocle st_one 0) 0) = ''[1]''
   \<and> filter (\<lambda>c. ISVISIBLE (client st_hidden c) (monitor st_hidden 0)) (clients (cl st_hidden)) = []
   \<and> ltsymbol (monitor (monocle st_hidden 0) 0) = ltsymbol (monitor st_hidden 0)"
proof -
  have h: "distinct (clients (cl st_one)) \<and> 1 \<in> set (clients (cl st_one))
      \<and> monocle_ready st_one 0 1"
    by (simp add: monocle_ready_def ISVISIBLE_def ex_defs)
  have n: "filter (\<lambda>c. ISVISIBLE (client st_hidden c) (monitor st_hidden 0))
      (clients (cl st_hidden)) = []"
    by (simp add: ISVISIBLE_def st_hidden_def ex_defs)
  show ?thesis
    using h n monocle_fills_work_area [of st_one 1 0, THEN conjunct1, THEN mp, OF h]
      monocle_fills_work_area [of st_one 1 0, THEN conjunct2]
      monocle_fills_work_area [of st_hidden 1 0, THEN conjunct2]
    by (simp add: monocle_placed_def ISVISIBLE_def ex_defs show_nat.simps)
qed

text \<open>
  Claim C4 as stated fails: with outer gaps of 10 and 30 pixels configured on the monitor,
  the one tiled client is placed on the whole work area, not on the work area shrunk by
  the gaps.
\<close>

theorem monocle_gaps_counterexample:
  "\<not> isfloating (client st_one 1) \<and> ISVISIBLE (client st_one 1) (monitor st_one 0)
   \<and> gappoh (monitor st_one 0) = 10 \<and> gappov (monitor st_one 0) = 30
   \<and> x (client (monocle st_one 0) 1) = wx (monitor st_one 0)
   \<and> y (client (monocle st_one 0) 1) = wy (monitor st_one 0)
   \<and> w (client (monocle st_one 0) 1) = ww (monitor st_one 0)
   \<and> h (client (monocle st_one 0) 1) = wh (monitor st_one 0)"
  by (simp add: monocle_def ex_defs eval_defs)

text \<open>
  Claim C3 at a failing input. Monitor 0 is selected and shows tag bit 1, monitor 1 shows
  tag bit 2. \<open>toggleview\<close> with mask 2 adds bit 2 to monitor 0 and takes it from monitor 1,
  whose tagset becomes empty; \<open>findfirstunusedtag\<close> returns 0 (its search stops below the
  highest occupied bit), and monitor 1 is left displaying the empty tagset. With monitor 1
  selected instead, \<open>toggleview\<close> with mask 1 empties monitor 0, which gets bit 1 back
  from \<open>findfirstunusedtag\<close>: both monitors then display bit 1.
\<close>

theorem toggleview_leaves_empty_tagset:
  "selmon st_two_mons = 0
   \<and> map (\<lambda>m. shown_tags (monitor st_two_mons m)) [0, 1] = [1, 2]
   \<and> map (shown_tags \<circ> monitor (toggleview st_two_mons 2)) [0, 1] = [3, 0]
   \<and> map (shown_tags \<circ> monitor (toggleview (st_two_mons\<lparr>selmon := 1\<rparr>) 1)) [0, 1] = [1, 3]"
  by code_simp

text \<open>
  Claim C2 at a failing input. Three fullscreen clients on tags 1, 2 and 4 (bits 1, 2, 4)
  of a monitor that shows tag bit 8; \<open>view\<close> with mask 7 makes all three visible. The
  loop toggles \<open>fs\<close> at each of them, so after the third it names that client again, and
  \<open>isfullscreen\<close> is set back on it: of the three, the last of the list stays fullscreen.
\<close>

theorem view_three_fullscreen:
  "map (\<lambda>c. isfullscreen (client st_three_fs c)) [3, 2, 1] = [True, True, True]
   \<and> shown_tags (monitor (view st_three_fs 7) 0) = 7
   \<and> map ((\<lambda>C. (tags C, isfullscreen C)) \<circ> client (view st_three_fs 7)) [3, 2, 1]
       = [(4, False), (2, False), (1, True)]"
  by code_simp

text \<open>
  Claim C1 at a failing input. Two monitors and one managed client with window 7: after
  \<open>updateclientlist\<close> both root properties hold the window twice, once for each monitor,
  since every monitor's \<open>cl\<close> is the one shared list.
\<close>

theorem updateclientlist_two_monitors:
  "mons st_two_mons_one_client = [0, 1]
   \<and> clients (cl st_two_mons_one_client) = [1] \<and> stack (cl st_two_mons_one_client) = [1]
   \<and> win (client st_two_mons_one_client 1) = 7
   \<and> NetClientList (updateclientlist st_two_mons_one_client) = [7, 7]
   \<and> NetClientListStacking (updateclientlist st_two_mons_one_client) = [7, 7]"
  by code_simp

lemma geom_rel_refl [simp]: "geom_rel s s"
  by (simp add: geom_rel_def)

lemma geom_rel_trans: "geom_rel s t \<Longrightarrow> geom_rel t u \<Longrightarrow> geom_rel s u"
  by (simp add: geom_rel_def)

lemma geom_erase_fields:
  assumes "geom_erase C' = geom_erase C"
  shows "name C' = name C" "mina C' = mina C" "maxa C' = maxa C"
    "basew C' = basew C" "baseh C' = baseh C" "incw C' = incw C" "inch C' = inch C"
    "maxw C' = maxw C" "maxh C' = maxh C" "minw C' = minw C" "minh C' = minh C"
    "bw C' = bw C" "oldbw C' = oldbw C" "tags C' = tags C" "isfixed C' = isfixed C"
    "isfloating C' = isfloating C" "isurgent C' = isurgent C" "neverfocus C' = neverfocus C"
    "oldstate C' = oldstate C" "isfullscreen C' = isfullscreen C"
    "ignoresizehints C' = ignoresizehints C" "beingmoved C' = beingmoved C"
    "isterminal C' = isterminal C" "noswallow C' = noswallow C" "pid C' = pid C"
    "swallowing C' = swallowing C" "mon C' = mon C" "win C' = win C"
proof -
  have *: "f (geom_erase C') = f (geom_erase C)" for f :: "Client \<Rightarrow> 'b"
    using assms by simp
  show "name C' = name C" using * [of name] by (simp add: geom_erase_def)
  show "mina C' = mina C" using * [of mina] by (simp add: geom_erase_def)
  show "maxa C' = maxa C" using * [of maxa] by (simp add: geom_erase_def)
  show "basew C' = basew C" using * [of basew] by (simp add: geom_erase_def)
  show "baseh C' = baseh C" using * [of baseh] by (simp add: geom_erase_def)
  show "incw C' = incw C" using * [of incw] by (simp add: geom_erase_def)
  show "inch C' = inch C" using * [of inch] by (simp add: geom_erase_def)
  show "maxw C' = maxw C" using * [of maxw] by (simp add: geom_erase_def)
  show "maxh C' = maxh C" using * [of maxh] by (simp add: geom_erase_def)
  show "minw C' = minw C" using * [of minw] by (simp add: geom_erase_def)
  show "minh C' = minh C" using * [of minh] by (simp add: geom_erase_def)
  show "bw C' = bw C" using * [of bw] by (simp add: geom_erase_def)
  show "oldbw C' = oldbw C" using * [of oldbw] by (simp add: geom_erase_def)
  show "tags C' = tags C" using * [of tags] by (simp add: geom_erase_def)
  show "isfixed C' = isfixed C" using * [of isfixed] by (simp add: geom_erase_def)
  show "isfloating C' = isfloating C" using * [of isfloating] by (simp add: geom_erase_def)
  show "isurgent C' = isurgent C" using * [of isurgent] by (simp add: geom_erase_def)
  show "neverfocus C' = neverfocus C" using * [of neverfocus] by (simp add: geom_erase_def)
  show "oldstate C' = oldstate C" using * [of oldstate] by (simp add: geom_erase_def)
  show "isfullscreen C' = isfullscreen C" using * [of isfullscreen] by (simp add: geom_erase_def)
  show "ignoresizehints C' = ignoresizehints C" using * [of ignoresizehints]
    by (simp add: geom_erase_def)
  show "beingmoved C' = beingmoved C" using * [of beingmoved] by (simp add: geom_erase_def)
  show "isterminal C' = isterminal C" using * [of isterminal] by (simp add: geom_erase_def)
  show "noswallow C' = noswallow C" using * [of noswallow] by (simp add: geom_erase_def)
  show "pid C' = pid C" using * [of pid] by (simp add: geom_erase_def)
  show "swallowing C' = swallowing C" using * [of swallowing] by (simp add: geom_erase_def)
  show "mon C' = mon C" using * [of mon] by (simp add: geom_erase_def)
  show "win C' = win C" using * [of win] by (simp add: geom_erase_def)
qed

lemma ltsymbol_erase_fields:
  fixes M M' :: Monitor
  assumes "M'\<lparr>ltsymbol := []\<rparr> = M\<lparr>ltsymbol := []\<rparr>"
  shows "mfact M' = mfact M" "nmaster M' = nmaster M" "num M' = num M"
    "mx M' = mx M" "my M' = my M" "mw M' = mw M" "mh M' = mh M"
    "wx M' = wx M" "wy M' = wy M" "ww M' = ww M" "wh M' = wh M"
    "gappih M' = gappih M" "gappiv M' = gappiv M" "gappoh M' = gappoh M" "gappov M' = gappov M"
    "seltags M' = seltags M" "sellt M' = sellt M" "tagset M' = tagset M"
    "showbar M' = showbar M" "sel M' = sel M" "lt M' = lt M"
proof -
  have *: "f (M'\<lparr>ltsymbol := []\<rparr>) = f (M\<lparr>ltsymbol := []\<rparr>)" for f :: "Monitor \<Rightarrow> 'b"
    using assms by simp
  show "mfact M' = mfact M" using * [of mfact] by simp
  show "nmaster M' = nmaster M" using * [of nmaster] by simp
  show "num M' = num M" using * [of num] by simp
  show "mx M' = mx M" using * [of mx] by simp
  show "my M' = my M" using * [of my] by simp
  show "mw M' = mw M" using * [of mw] by simp
  show "mh M' = mh M" using * [of mh] by simp
  show "wx M' = wx M" using * [of wx] by simp
  show "wy M' = wy M" using * [of wy] by simp
  show "ww M' = ww M" using * [of ww] by simp
  show "wh M' = wh M" using * [of wh] by simp
  show "gappih M' = gappih M" using * [of gappih] by simp
  show "gappiv M' = gappiv M" using * [of gappiv] by simp
  show "gappoh M' = gappoh M" using * [of gappoh] by simp
  show "gappov M' = gappov M" using * [of gappov] by simp
  show "seltags M' = seltags M" using * [of seltags] by simp
  show "sellt M' = sellt M" using * [of sellt] by simp
  show "tagset M' = tagset M" using * [of tagset] by simp
  show "showbar M' = showbar M" using * [of showbar] by simp
  show "sel M' = sel M" using * [of sel] by simp
  show "lt M' = lt M" using * [of lt] by simp
qed

lemma geom_rel_client:
  "geom_rel s t \<Longrightarrow> geom_erase (client t c) = geom_erase (client s c)"
  by (simp add: geom_rel_def)

lemma geom_rel_monitor:
  "geom_rel s t \<Longrightarrow> (monitor t m)\<lparr>ltsymbol := []\<rparr> = (monitor s m)\<lparr>ltsymbol := []\<rparr>"
  by (simp add: geom_rel_def)

lemmas geom_rel_clientD = geom_erase_fields [OF geom_rel_client]

lemmas geom_rel_monitorD = ltsymbol_erase_fields [OF geom_rel_monitor]

lemma geom_rel_stateD:
  assumes "geom_rel s t"
  shows "mons t = mons s" "selmon t = selmon s" "cl t = cl s"
    "sw t = sw s" "sh t = sh s" "bh t = bh s"
    "NetClientList t = NetClientList s" "NetClientListStacking t = NetClientListStacking s"
    "xtitle t = xtitle s"
  using assms by (simp_all add: geom_rel_def)

lemma geom_rel_resizeclient: "geom_rel s (resizeclient s c x0 y0 w0 h0)"
  by (simp add: geom_rel_def resizeclient_unfold Let_def geom_erase_def)

lemma geom_rel_resize: "geom_rel s (resize s c x0 y0 w0 h0 i)"
  by (simp add: resize_def geom_rel_resizeclient split: prod.splits)

lemma geom_rel_showhide: "geom_rel s (showhide s cs)"
proof (induction cs arbitrary: s)
  case Nil
  then show ?case by simp
next
  case (Cons c cs)
  let ?C = "client s c"
  let ?M = "monitor s (mon ?C)"
  let ?C1 = "if tags ?C AND SPTAGMASK \<noteq> 0 \<and> isfloating ?C
             then ?C\<lparr>x := wx ?M + (ww ?M sdiv 2 - WIDTH ?C sdiv 2),
                    y := wy ?M + (wh ?M sdiv 2 - HEIGHT ?C sdiv 2)\<rparr>
             else ?C"
  let ?s1 = "s\<lparr>client := (client s)(c := ?C1)\<rparr>"
  let ?s2 = "if (arrange (lt ?M (sellt ?M)) = None \<or> isfloating ?C1) \<and> \<not> isfullscreen ?C1
             then resize ?s1 c (x ?C1) (y ?C1) (w ?C1) (h ?C1) False else ?s1"
  have 1: "geom_rel s ?s1"
    by (simp add: geom_rel_def geom_erase_def)
  have 2: "geom_rel ?s1 ?s2"
    by (simp add: geom_rel_resize)
  have 3: "geom_rel ?s2 (showhide ?s2 cs)"
    by (rule Cons.IH)
  have "geom_rel s (showhide ?s2 cs)"
    using geom_rel_trans [OF geom_rel_trans [OF 1 2] 3] .
  moreover have "geom_rel s (showhide s cs)"
    by (rule Cons.IH)
  ultimately show ?case
    by (simp add: Let_def)
qed

lemma geom_rel_monocle_loop: "geom_rel s (monocle_loop s m cs)"
proof (induction cs arbitrary: s)
  case Nil
  then show ?case by simp
next
  case (Cons c cs)
  show ?case
    using Cons.IH geom_rel_trans [OF geom_rel_resize Cons.IH] by simp
qed

lemma geom_rel_ltsymbol:
  "geom_rel s (s\<lparr>monitor := (monitor s)(m := (monitor s m)\<lparr>ltsymbol := t\<rparr>)\<rparr>)"
  by (simp add: geom_rel_def)

lemma geom_rel_monocle: "geom_rel s (monocle s m)"
  unfolding monocle_def Let_def
  using geom_rel_trans [OF geom_rel_ltsymbol geom_rel_monocle_loop] geom_rel_monocle_loop
  by (simp split: if_splits)

lemma geom_rel_fold_resize:
  "geom_rel s (fold (\<lambda>(c, (x0, y0, w0, h0)) s'. resize s' c x0 y0 w0 h0 False) zs s)"
proof (induction zs arbitrary: s)
  case Nil
  then show ?case by simp
next
  case (Cons z zs)
  obtain c x0 y0 w0 h0 where z: "z = (c, (x0, y0, w0, h0))"
    by (cases z) auto
  show ?case
    using geom_rel_trans [OF geom_rel_resize Cons.IH] by (simp add: z)
qed

lemma geom_rel_ext_layout: "geom_rel s (ext_layout f s m)"
  unfolding ext_layout_def Let_def
  by (auto split: prod.splits option.splits
      intro: geom_rel_fold_resize geom_rel_trans [OF geom_rel_ltsymbol geom_rel_fold_resize])

lemma geom_rel_arrangemon: "geom_rel s (arrangemon s m)"
  unfolding arrangemon_def Let_def
  by (auto split: option.splits arrangefn.splits
      intro: geom_rel_ltsymbol geom_rel_trans [OF geom_rel_ltsymbol geom_rel_monocle]
        geom_rel_trans [OF geom_rel_ltsymbol geom_rel_ext_layout])

lemma geom_rel_fold_showhide:
  "geom_rel s (fold (\<lambda>m s'. showhide s' (stack (cl s'))) ms s)"
proof (induction ms arbitrary: s)
  case Nil
  then show ?case by simp
next
  case (Cons m ms)
  show ?case
    using geom_rel_trans [OF geom_rel_showhide Cons.IH] by simp
qed

lemma geom_rel_fold_arrangemon:
  "geom_rel s (fold (\<lambda>m s'. arrangemon s' m) ms s)"
proof (induction ms arbitrary: s)
  case Nil
  then show ?case by simp
next
  case (Cons m ms)
  show ?case
    using geom_rel_trans [OF geom_rel_arrangemon Cons.IH] by simp
qed

lemma geom_rel_arrange: "geom_rel s (arrange' s mo)"
proof (cases mo)
  case None
  then show ?thesis
    using geom_rel_trans [OF geom_rel_fold_showhide geom_rel_fold_arrangemon]
    by (simp add: arrange'_def geom_rel_stateD [OF geom_rel_fold_showhide])
next
  case (Some m)
  then show ?thesis
    using geom_rel_trans [OF geom_rel_showhide geom_rel_arrangemon]
    by (simp add: arrange'_def restack_def)
qed

lemma updateclientlist_inner:
  "fold (\<lambda>c t'. t'\<lparr>NetClientList := NetClientList t' @ [win (client t' c)]\<rparr>) cs t
     = t\<lparr>NetClientList := NetClientList t @ map (\<lambda>c. win (client t c)) cs\<rparr>"
  by (induction cs arbitrary: t) simp_all

lemma updateclientlist_inner_stacking:
  "fold (\<lambda>c t'. t'\<lparr>NetClientListStacking := NetClientListStacking t' @ [win (client t' c)]\<rparr>) cs t
     = t\<lparr>NetClientListStacking := NetClientListStacking t @ map (\<lambda>c. win (client t c)) cs\<rparr>"
  by (induction cs arbitrary: t) simp_all

lemma updateclientlist_outer:
  "fold (\<lambda>m t. fold (\<lambda>c t'. t'\<lparr>NetClientList := NetClientList t' @ [win (client t' c)]\<rparr>)
                  (clients (cl t)) t) ms t
     = t\<lparr>NetClientList := NetClientList t
           @ concat (map (\<lambda>m. map (\<lambda>c. win (client t c)) (clients (cl t))) ms)\<rparr>"
  by (induction ms arbitrary: t) (simp_all add: updateclientlist_inner)

lemma updateclientlist_outer_stacking:
  "fold (\<lambda>m t. fold (\<lambda>c t'. t'\<lparr>NetClientListStacking :=
                                  NetClientListStacking t' @ [win (client t' c)]\<rparr>)
                  (stack (cl t)) t) ms t
     = t\<lparr>NetClientListStacking := NetClientListStacking t
           @ concat (map (\<lambda>m. map (\<lambda>c. win (client t c)) (stack (cl t))) ms)\<rparr>"
  by (induction ms arbitrary: t) (simp_all add: updateclientlist_inner_stacking)

lemma updateclientlist_eq:
  "updateclientlist s =
     s\<lparr>NetClientList := concat (map (\<lambda>m. map (\<lambda>c. win (client s c)) (clients (cl s))) (mons s)),
       NetClientListStacking :=
         concat (map (\<lambda>m. map (\<lambda>c. win (client s c)) (stack (cl s))) (mons s))\<rparr>"
  by (simp add: updateclientlist_def Let_def updateclientlist_outer updateclientlist_outer_stacking)

text \<open>
  Claim C7. If the child has \<open>noswallow\<close> or \<open>isterminal\<close> set, \<open>swallow\<close> changes nothing.
  Otherwise the child is unlinked from the client list and from the stack, the parent's
  window is the child's former window and the child's window the parent's former one, and
  the parent's \<open>swallowing\<close> field names the child. The result is the same for both values
  of \<open>swallowfloating\<close>: the second guard never decides.
\<close>

theorem swallow_transplant:
  "(noswallow (client s c) \<or> isterminal (client s c) \<longrightarrow> swallow sf s p c = s)
   \<and> (\<not> noswallow (client s c) \<and> \<not> isterminal (client s c) \<longrightarrow>
        clients (cl (swallow sf s p c)) = remove1 c (clients (cl s))
      \<and> stack (cl (swallow sf s p c)) = remove1 c (stack (cl s))
      \<and> (distinct (clients (cl s)) \<longrightarrow> c \<notin> set (clients (cl (swallow sf s p c))))
      \<and> (distinct (stack (cl s)) \<longrightarrow> c \<notin> set (stack (cl (swallow sf s p c))))
      \<and> win (client (swallow sf s p c) p) = win (client s c)
      \<and> win (client (swallow sf s p c) c) = win (client s p)
      \<and> swallowing (client (swallow sf s p c) p) = Some c)
   \<and> swallow True s p c = swallow False s p c"
proof (intro conjI impI)
  show "swallow sf s p c = s" if "noswallow (client s c) \<or> isterminal (client s c)"
    using that by (simp add: swallow_def)
  show "swallow True s p c = swallow False s p c"
    by (simp add: swallow_def)
next
  assume "\<not> noswallow (client s c) \<and> \<not> isterminal (client s c)"
  define u where "u =
       (let s1 = detachstack (detach s c) c;
            s2 = s1\<lparr>client := (client s1)(p := (client s1 p)\<lparr>swallowing := Some c\<rparr>)\<rparr>;
            s3 = s2\<lparr>client := (client s2)(c := (client s2 c)\<lparr>mon := mon (client s2 p)\<rparr>)\<rparr>;
            wp = win (client s3 p);
            s4 = s3\<lparr>client := (client s3)(p := (client s3 p)\<lparr>win := win (client s3 c)\<rparr>)\<rparr>;
            s5 = s4\<lparr>client := (client s4)(c := (client s4 c)\<lparr>win := wp\<rparr>)\<rparr>
        in updatetitle s5 p)"
  define a where "a = arrange' u (Some (mon (client u p)))"
  have run: "swallow sf s p c = updateclientlist a"
    using \<open>\<not> noswallow (client s c) \<and> \<not> isterminal (client s c)\<close>
    unfolding swallow_def a_def u_def Let_def by (simp only: simp_thms if_False)
  have g: "geom_rel u a"
    unfolding a_def by (rule geom_rel_arrange)
  have u: "clients (cl u) = remove1 c (clients (cl s))"
    "stack (cl u) = remove1 c (stack (cl s))"
    "win (client u p) = win (client s c)"
    "win (client u c) = win (client s p)"
    "swallowing (client u p) = Some c"
    unfolding u_def
    by (simp_all add: updatetitle_def detachstack_def detach_def Let_def)
  have a: "cl a = cl u" "win (client a p) = win (client u p)" "win (client a c) = win (client u c)"
    "swallowing (client a p) = swallowing (client u p)"
    by (simp_all add: geom_rel_stateD [OF g] geom_rel_clientD [OF g])
  show c1: "clients (cl (swallow sf s p c)) = remove1 c (clients (cl s))"
    and c2: "stack (cl (swallow sf s p c)) = remove1 c (stack (cl s))"
    and "win (client (swallow sf s p c) p) = win (client s c)"
    and "win (client (swallow sf s p c) c) = win (client s p)"
    and "swallowing (client (swallow sf s p c) p) = Some c"
    unfolding run updateclientlist_eq
    by (simp_all add: a u)
  show "c \<notin> set (clients (cl (swallow sf s p c)))" if "distinct (clients (cl s))"
    using that unfolding c1 by simp
  show "c \<notin> set (stack (cl (swallow sf s p c)))" if "distinct (stack (cl s))"
    using that unfolding c2 by simp
qed

theorem swallow_transplant_witness:
  "(noswallow (client (st_swallow\<lparr>client := (client st_swallow)(1 := (client st_swallow 1)\<lparr>noswallow := True\<rparr>)\<rparr>) 1)
     \<and> swallow False (st_swallow\<lparr>client := (client st_swallow)(1 := (client st_swallow 1)\<lparr>noswallow := True\<rparr>)\<rparr>) 2 1
        = st_swallow\<lparr>client := (client st_swallow)(1 := (client st_swallow 1)\<lparr>noswallow := True\<rparr>)\<rparr>)
   \<and> \<not> noswallow (client st_swallow 1) \<and> \<not> isterminal (client st_swallow 1)
   \<and> distinct (clients (cl st_swallow)) \<and> distinct (stack (cl st_swallow))
   \<and> clients (cl (swallow False st_swallow 2 1)) = [2]
   \<and> stack (cl (swallow False st_swallow 2 1)) = [2]
   \<and> 1 \<notin> set (clients (cl (swallow False st_swallow 2 1)))
   \<and> 1 \<notin> set (stack (cl (swallow False st_swallow 2 1)))
   \<and> win (client (swallow False st_swallow 2 1) 2) = 7
   \<and> win (client (swallow False st_swallow 2 1) 1) = 20
   \<and> swallowing (client (swallow False st_swallow 2 1) 2) = Some 1"
proof -
  let ?n = "st_swallow\<lparr>client := (client st_swallow)(1 := (client st_swallow 1)\<lparr>noswallow := True\<rparr>)\<rparr>"
  have n: "noswallow (client ?n 1) \<or> isterminal (client ?n 1)"
    by simp
  have h: "\<not> noswallow (client st_swallow 1) \<and> \<not> isterminal (client st_swallow 1)"
    and d: "distinct (clients (cl st_swallow))" "distinct (stack (cl st_swallow))"
    and v: "remove1 1 (clients (cl st_swallow)) = [2]" "remove1 1 (stack (cl st_swallow)) = [2]"
    "win (client st_swallow 1) = 7" "win (client st_swallow 2) = 20"
    by (simp_all add: st_swallow_def ex_defs)
  note t1 = swallow_transplant [of ?n 1 False 2, THEN conjunct1, rule_format, OF n]
  note t2 = swallow_transplant [of st_swallow 1 False 2, THEN conjunct2, THEN conjunct1,
      rule_format, OF h]
  show ?thesis
    apply (intro conjI)
    using n apply simp
    using t1 apply simp
    using h apply simp
    using h apply simp
    using d apply simp
    using d apply simp
    using t2 v apply simp
    using t2 v apply simp
    using t2 d apply simp
    using t2 d apply simp
    using t2 v apply simp
    using t2 v apply simp
    using t2 apply simp
    done
qed

text \<open>
  Claim C8. When the new factor computed by \<open>setmfact\<close> is below 0.05 or above 0.95 the call
  changes nothing; and if the master factor of every monitor is within \<open>[0.05, 0.95]\<close>
  before a call of \<open>setmfact\<close>, it is so after the call.
\<close>

theorem setmfact_range:
  "((if a < 1 then fadd a (mfact (monitor s (selmon s))) else fsub a 1) < 5 / 100
      \<or> (if a < 1 then fadd a (mfact (monitor s (selmon s))) else fsub a 1) > 95 / 100
     \<longrightarrow> setmfact fadd fsub s (Some a) = s)
   \<and> ((\<forall>m \<in> set (mons s). 5 / 100 \<le> mfact (monitor s m) \<and> mfact (monitor s m) \<le> 95 / 100)
     \<longrightarrow> (\<forall>m \<in> set (mons (setmfact fadd fsub s arg)).
            5 / 100 \<le> mfact (monitor (setmfact fadd fsub s arg) m)
            \<and> mfact (monitor (setmfact fadd fsub s arg) m) \<le> 95 / 100))"
proof (intro conjI impI)
  assume "(if a < 1 then fadd a (mfact (monitor s (selmon s))) else fsub a 1) < 5 / 100
      \<or> (if a < 1 then fadd a (mfact (monitor s (selmon s))) else fsub a 1) > 95 / 100"
  then show "setmfact fadd fsub s (Some a) = s"
    by (simp add: setmfact_def Let_def)
next
  assume inv: "\<forall>m \<in> set (mons s). 5 / 100 \<le> mfact (monitor s m) \<and> mfact (monitor s m) \<le> 95 / 100"
  show "\<forall>m \<in> set (mons (setmfact fadd fsub s arg)).
            5 / 100 \<le> mfact (monitor (setmfact fadd fsub s arg) m)
            \<and> mfact (monitor (setmfact fadd fsub s arg) m) \<le> 95 / 100"
  proof (cases "setmfact fadd fsub s arg = s")
    case True
    with inv show ?thesis by simp
  next
    case False
    then obtain a where a: "arg = Some a"
      by (cases arg) (simp_all add: setmfact_def)
    define f where "f = (if a < 1 then fadd a (mfact (monitor s (selmon s))) else fsub a 1)"
    define t where "t = s\<lparr>monitor := (monitor s)(selmon s :=
                          (monitor s (selmon s))\<lparr>mfact := f\<rparr>)\<rparr>"
    from False have f: "5 / 100 \<le> f" "f \<le> 95 / 100"
      and run: "setmfact fadd fsub s arg = arrange' t (Some (selmon s))"
      unfolding a f_def t_def
      by (auto simp: setmfact_def Let_def split: if_splits)
    have g: "geom_rel t (arrange' t (Some (selmon s)))"
      by (rule geom_rel_arrange)
    have "mons t = mons s"
      by (simp add: t_def)
    then have "mons (arrange' t (Some (selmon s))) = mons s"
      "mfact (monitor (arrange' t (Some (selmon s))) m) = mfact (monitor t m)" for m
      by (simp_all add: geom_rel_stateD [OF g] geom_rel_monitorD [OF g])
    moreover have "5 / 100 \<le> mfact (monitor t m) \<and> mfact (monitor t m) \<le> 95 / 100"
      if "m \<in> set (mons s)" for m
      using that inv f by (simp add: t_def)
    ultimately show ?thesis
      unfolding run by simp
  qed
qed

lemma setmfact_mons: "mons (setmfact fadd fsub s arg) = mons s"
proof -
  have "mons (arrange' t mo) = mons t" for t mo
    by (simp add: geom_rel_stateD [OF geom_rel_arrange])
  then show ?thesis
    by (simp add: setmfact_def Let_def split: option.splits)
qed

theorem setmfact_range_witness:
  "55 / 100 + 45 / 100 > (95 / 100 :: real)
   \<and> setmfact (+) (-) st_one (Some (45 / 100)) = st_one
   \<and> mons st_one = [0] \<and> mfact (monitor st_one 0) = 55 / 100
   \<and> 5 / 100 \<le> mfact (monitor (setmfact (+) (-) st_one (Some (- 5 / 100))) 0)
   \<and> mfact (monitor (setmfact (+) (-) st_one (Some (- 5 / 100))) 0) \<le> 95 / 100"
proof -
  have m: "mfact (monitor st_one (selmon st_one)) = 55 / 100" "mons st_one = [0]"
    "mfact (monitor st_one 0) = 55 / 100"
    by (simp_all add: ex_defs)
  have h1: "(if (45 / 100 :: real) < 1 then 45 / 100 + mfact (monitor st_one (selmon st_one))
             else 45 / 100 - 1) < 5 / 100
      \<or> (if (45 / 100 :: real) < 1 then 45 / 100 + mfact (monitor st_one (selmon st_one))
             else 45 / 100 - 1) > 95 / 100"
    by (simp add: m)
  have h2: "\<forall>m \<in> set (mons st_one). 5 / 100 \<le> mfact (monitor st_one m)
         \<and> mfact (monitor st_one m) \<le> 95 / 100"
    by (simp add: m)
  have h3: "0 \<in> set (mons (setmfact (+) (-) st_one (Some (- 5 / 100))))"
    by (simp add: setmfact_mons m)
  note t1 = setmfact_range [of "45 / 100" "(+)" st_one "(-)", THEN conjunct1, THEN mp, OF h1]
  note t2 = setmfact_range [of _ "(+)" st_one "(-)" "Some (- 5 / 100)", THEN conjunct2,
      THEN mp, OF h2, THEN bspec, OF h3]
  show ?thesis
    using t1 t2 m by simp
qed






lemma view_rel_refl [simp]: "view_rel s s"
  by (simp add: view_rel_def)

lemma view_rel_trans: "view_rel s t \<Longrightarrow> view_rel t u \<Longrightarrow> view_rel s u"
  by (simp add: view_rel_def)

lemma geom_rel_view_rel: "geom_rel s t \<Longrightarrow> view_rel s t"
  by (simp add: view_rel_def geom_rel_stateD geom_rel_monitorD)

lemma geom_rel_on_own_monitor:
  "geom_rel s t \<Longrightarrow> on_own_monitor t m c = on_own_monitor s m c"
  by (simp add: on_own_monitor_def ISVISIBLE_def geom_rel_clientD geom_rel_monitorD)

lemma attachclients_loop_frame:
  "monitor (fst (attachclients_loop s m utags cs r)) = monitor s
   \<and> mons (fst (attachclients_loop s m utags cs r)) = mons s
   \<and> selmon (fst (attachclients_loop s m utags cs r)) = selmon s
   \<and> cl (fst (attachclients_loop s m utags cs r)) = cl s"
  by (induction cs arbitrary: s r) (simp_all add: Let_def unfocus_def)

lemma attachclients_loop_keeps:
  "on_own_monitor s m c \<Longrightarrow> on_own_monitor (fst (attachclients_loop s m utags cs r)) m c"
proof (induction cs arbitrary: s r)
  case Nil
  then show ?case by simp
next
  case (Cons d cs)
  show ?case
  proof (cases "ISVISIBLE (client s d) (monitor s m)")
    case False
    then show ?thesis using Cons by simp
  next
    case True
    let ?C1 = "if tags (client s d) AND utags \<noteq> 0
               then (client s d)\<lparr>tags := tags (client s d) AND tagset (monitor s m) (seltags (monitor s m))\<rparr>
               else client s d"
    let ?s2 = "s\<lparr>client := (client s)(d := ?C1\<lparr>mon := m\<rparr>)\<rparr>"
    have "on_own_monitor ?s2 m c"
      using Cons.prems by (simp add: on_own_monitor_def ISVISIBLE_def)
    from Cons.IH [OF this] show ?thesis
      using True by (simp add: Let_def unfocus_def)
  qed
qed

lemma attachclients_loop_sets:
  "c \<in> set cs \<Longrightarrow> on_own_monitor (fst (attachclients_loop s m utags cs r)) m c"
proof (induction cs arbitrary: s r)
  case Nil
  then show ?case by simp
next
  case (Cons d cs)
  show ?case
  proof (cases "d = c")
    case True
    show ?thesis
    proof (cases "ISVISIBLE (client s c) (monitor s m)")
      case v: False
      then have "on_own_monitor s m c"
        by (simp add: on_own_monitor_def)
      then show ?thesis
        using True v attachclients_loop_keeps by simp
    next
      case v: True
      let ?C1 = "if tags (client s c) AND utags \<noteq> 0
               then (client s c)\<lparr>tags := tags (client s c) AND tagset (monitor s m) (seltags (monitor s m))\<rparr>
               else client s c"
      let ?s2 = "s\<lparr>client := (client s)(c := ?C1\<lparr>mon := m\<rparr>)\<rparr>"
      have "on_own_monitor ?s2 m c"
        by (simp add: on_own_monitor_def)
      from attachclients_loop_keeps [OF this] show ?thesis
        using True v by (simp add: Let_def unfocus_def)
    qed
  next
    case False
    with Cons.prems have "c \<in> set cs" by simp
    from Cons.IH [OF this] show ?thesis
      by (simp add: Let_def)
  qed
qed

lemma geom_rel_fold_arrange_others:
  "geom_rel s (fold (\<lambda>tm s'. if tm \<noteq> m then arrange' s' (Some tm) else s') ms s)"
proof (induction ms arbitrary: s)
  case Nil
  then show ?case by simp
next
  case (Cons a ms)
  show ?case
    using Cons.IH geom_rel_trans [OF geom_rel_arrange Cons.IH] by simp
qed

lemma attachclients_Some:
  obtains s1 r where
    "attachclients_loop s m
       (fold (\<lambda>tm u. if tm \<noteq> m then u OR tagset (monitor s tm) (seltags (monitor s tm)) else u)
          (mons s) 0) (clients (cl s)) False = (s1, r)"
    "attachclients s (Some m) =
       (if r then fold (\<lambda>tm s'. if tm \<noteq> m then arrange' s' (Some tm) else s') (mons s1) s1
        else s1)"
proof -
  obtain s1 r where l: "attachclients_loop s m
       (fold (\<lambda>tm u. if tm \<noteq> m then u OR tagset (monitor s tm) (seltags (monitor s tm)) else u)
          (mons s) 0) (clients (cl s)) False = (s1, r)"
    by (cases "attachclients_loop s m
       (fold (\<lambda>tm u. if tm \<noteq> m then u OR tagset (monitor s tm) (seltags (monitor s tm)) else u)
          (mons s) 0) (clients (cl s)) False") auto
  show thesis
    by (rule that [OF l]) (simp add: attachclients_def Let_def l)
qed

lemma attachclients_view_rel: "view_rel s (attachclients s mo)"
proof (cases mo)
  case None
  then show ?thesis by (simp add: attachclients_def)
next
  case (Some m)
  obtain s1 r where l: "attachclients_loop s m
       (fold (\<lambda>tm u. if tm \<noteq> m then u OR tagset (monitor s tm) (seltags (monitor s tm)) else u)
          (mons s) 0) (clients (cl s)) False = (s1, r)"
    and run: "attachclients s (Some m) =
       (if r then fold (\<lambda>tm s'. if tm \<noteq> m then arrange' s' (Some tm) else s') (mons s1) s1
        else s1)"
    by (rule attachclients_Some)
  have s1: "s1 = fst (attachclients_loop s m
       (fold (\<lambda>tm u. if tm \<noteq> m then u OR tagset (monitor s tm) (seltags (monitor s tm)) else u)
          (mons s) 0) (clients (cl s)) False)"
    using l by simp
  have 1: "view_rel s s1"
    unfolding s1 by (simp add: view_rel_def attachclients_loop_frame)
  have 2: "view_rel s1 (fold (\<lambda>tm s'. if tm \<noteq> m then arrange' s' (Some tm) else s') (mons s1) s1)"
    by (rule geom_rel_view_rel [OF geom_rel_fold_arrange_others])
  show ?thesis
    using 1 view_rel_trans [OF 1 2] by (simp add: Some run)
qed

lemma attachclients_on_own_monitor:
  assumes "c \<in> set (clients (cl s))"
  shows "on_own_monitor (attachclients s (Some m)) m c"
proof -
  obtain s1 r where l: "attachclients_loop s m
       (fold (\<lambda>tm u. if tm \<noteq> m then u OR tagset (monitor s tm) (seltags (monitor s tm)) else u)
          (mons s) 0) (clients (cl s)) False = (s1, r)"
    and run: "attachclients s (Some m) =
       (if r then fold (\<lambda>tm s'. if tm \<noteq> m then arrange' s' (Some tm) else s') (mons s1) s1
        else s1)"
    by (rule attachclients_Some)
  have s1: "s1 = fst (attachclients_loop s m
       (fold (\<lambda>tm u. if tm \<noteq> m then u OR tagset (monitor s tm) (seltags (monitor s tm)) else u)
          (mons s) 0) (clients (cl s)) False)"
    using l by simp
  have 1: "on_own_monitor s1 m c"
    unfolding s1 using assms by (rule attachclients_loop_sets)
  have 2: "on_own_monitor (fold (\<lambda>tm s'. if tm \<noteq> m then arrange' s' (Some tm) else s') (mons s1) s1) m c"
    using 1 by (simp add: geom_rel_on_own_monitor [OF geom_rel_fold_arrange_others])
  show ?thesis
    using 1 2 by (simp add: run)
qed

lemma view_fs_frame:
  "monitor (fst (view_fs s nt cs fs)) = monitor s
   \<and> mons (fst (view_fs s nt cs fs)) = mons s
   \<and> selmon (fst (view_fs s nt cs fs)) = selmon s
   \<and> cl (fst (view_fs s nt cs fs)) = cl s
   \<and> (\<forall>c. tags (client (fst (view_fs s nt cs fs)) c) = tags (client s c)
          \<and> mon (client (fst (view_fs s nt cs fs)) c) = mon (client s c))"
  by (induction cs arbitrary: s fs) simp_all

lemma view_swap_frame:
  "view_swap s nt ms = Some s1 \<Longrightarrow>
     mons s1 = mons s \<and> selmon s1 = selmon s \<and> cl s1 = cl s
     \<and> tagset (monitor s1 (selmon s)) = tagset (monitor s (selmon s))
     \<and> seltags (monitor s1 (selmon s)) = seltags (monitor s (selmon s))"
proof (induction ms)
  case Nil
  then show ?case by simp
next
  case (Cons m ms)
  let ?M = "monitor s m" and ?S = "monitor s (selmon s)"
  show ?case
  proof (cases "m \<noteq> selmon s \<and> nt AND tagset ?M (seltags ?M) \<noteq> 0")
    case False
    with Cons show ?thesis by (simp add: Let_def)
  next
    case True
    define k where "k = seltags ?M XOR 1"
    define u where "u = s\<lparr>monitor := (monitor s)(m := ?M\<lparr>sel := sel ?S, seltags := k,
                            tagset := (tagset ?M)(k := tagset ?S (seltags ?S))\<rparr>)\<rparr>"
    from True Cons.prems have s1: "s1 = arrange' (attachclients u (Some m)) (Some m)"
      by (simp add: Let_def u_def k_def split: if_splits)
    have "view_rel u s1"
      unfolding s1
      by (rule view_rel_trans [OF attachclients_view_rel geom_rel_view_rel [OF geom_rel_arrange]])
    then have "mons s1 = mons u" "selmon s1 = selmon u" "cl s1 = cl u"
      "tagset (monitor s1 (selmon s)) = tagset (monitor u (selmon s))"
      "seltags (monitor s1 (selmon s)) = seltags (monitor u (selmon s))"
      by (simp_all add: view_rel_def)
    then show ?thesis
      using True by (simp add: u_def)
  qed
qed

lemma focus_None_frame:
  assumes "\<forall>c \<in> set (stack (cl s)). on_own_monitor s (selmon s) c"
  shows "selmon (focus s None) = selmon s
     \<and> (\<forall>m. tagset (monitor (focus s None) m) = tagset (monitor s m)
            \<and> seltags (monitor (focus s None) m) = seltags (monitor s m))"
proof (cases "find (\<lambda>d. ISVISIBLE (client s d) (monitor s (selmon s))) (stack (cl s))")
  case None
  then show ?thesis
    by (simp add: focus_def Let_def unfocus_def)
next
  case (Some c)
  then have "c \<in> set (stack (cl s))" "ISVISIBLE (client s c) (monitor s (selmon s))"
    by (auto simp: find_Some_iff)
  with assms have m: "mon (client s c) = selmon s"
    by (auto simp: on_own_monitor_def)
  show ?thesis
    using Some m
    by (simp add: focus_def Let_def unfocus_def seturgent_def detachstack_def attachstack_def)
qed

lemma view_rel_D:
  assumes "view_rel s t"
  shows "mons t = mons s" "selmon t = selmon s" "cl t = cl s"
    "tagset (monitor t m) = tagset (monitor s m)" "seltags (monitor t m) = seltags (monitor s m)"
  using assms by (simp_all add: view_rel_def)

lemma view_tail:
  assumes sub: "set (stack (cl s2)) \<subseteq> set (clients (cl s2))"
    and s3: "s3 = fst (view_fs s2 nt (clients (cl s2)) None)"
    and s4: "s4 = arrange' (attachclients s3 (Some (selmon s3))) (Some (selmon s3))"
    and s5: "s5 = (case fs of
                     None \<Rightarrow> s4
                   | Some f \<Rightarrow>
                      (let t = s4\<lparr>client := (client s4)(f := (client s4 f)
                                   \<lparr>isfullscreen := True\<rparr>)\<rparr>;
                           F = monitor t (mon (client t f))
                       in resizeclient t f (mx F) (my F) (mw F) (mh F)))"
  shows "selmon (focus s5 None) = selmon s2
     \<and> tagset (monitor (focus s5 None) m) = tagset (monitor s2 m)
     \<and> seltags (monitor (focus s5 None) m) = seltags (monitor s2 m)"
proof -
  let ?sm = "selmon s2"
  have f3: "monitor s3 = monitor s2" "mons s3 = mons s2" "selmon s3 = ?sm" "cl s3 = cl s2"
    unfolding s3 by (simp_all add: view_fs_frame)
  then have r23: "view_rel s2 s3"
    by (simp add: view_rel_def)
  define a where "a = attachclients s3 (Some ?sm)"
  have r3a: "view_rel s3 a"
    unfolding a_def by (rule attachclients_view_rel)
  have owna: "on_own_monitor a ?sm c" if "c \<in> set (clients (cl s2))" for c
    unfolding a_def using that f3(4) attachclients_on_own_monitor [of c s3 ?sm] by simp
  have s4': "s4 = arrange' a (Some ?sm)"
    by (simp add: s4 a_def f3)
  have ga4: "geom_rel a s4"
    unfolding s4' by (rule geom_rel_arrange)
  have own4: "on_own_monitor s4 ?sm c" if "c \<in> set (clients (cl s2))" for c
    using owna [OF that] by (simp add: geom_rel_on_own_monitor [OF ga4])
  have r45: "view_rel s4 s5" and own5: "\<And>c. on_own_monitor s5 ?sm c = on_own_monitor s4 ?sm c"
  proof -
    show "view_rel s4 s5"
    proof (cases fs)
      case None
      then show ?thesis by (simp add: s5)
    next
      case (Some f)
      let ?t = "s4\<lparr>client := (client s4)(f := (client s4 f)\<lparr>isfullscreen := True\<rparr>)\<rparr>"
      have "view_rel s4 ?t"
        by (simp add: view_rel_def)
      moreover have "view_rel ?t (resizeclient ?t f x0 y0 w0 h0)" for x0 y0 w0 h0
        by (rule geom_rel_view_rel [OF geom_rel_resizeclient])
      ultimately show ?thesis
        unfolding s5 Some by (simp add: Let_def view_rel_trans)
    qed
    show "on_own_monitor s5 ?sm c = on_own_monitor s4 ?sm c" for c
    proof (cases fs)
      case None
      then show ?thesis by (simp add: s5)
    next
      case (Some f)
      let ?t = "s4\<lparr>client := (client s4)(f := (client s4 f)\<lparr>isfullscreen := True\<rparr>)\<rparr>"
      have "on_own_monitor ?t ?sm c = on_own_monitor s4 ?sm c"
        by (simp add: on_own_monitor_def ISVISIBLE_def)
      moreover have "on_own_monitor (resizeclient ?t f x0 y0 w0 h0) ?sm c = on_own_monitor ?t ?sm c"
        for x0 y0 w0 h0
        by (rule geom_rel_on_own_monitor [OF geom_rel_resizeclient])
      ultimately show ?thesis
        unfolding s5 Some by (simp add: Let_def)
    qed
  qed
  have r25: "view_rel s2 s5"
    using view_rel_trans [OF view_rel_trans [OF view_rel_trans [OF r23 r3a]
          geom_rel_view_rel [OF ga4]] r45] .
  have "\<forall>c \<in> set (stack (cl s5)). on_own_monitor s5 (selmon s5) c"
    using sub own4 by (auto simp: own5 view_rel_D [OF r25])
  from focus_None_frame [OF this] show ?thesis
    by (simp add: view_rel_D [OF r25])
qed

lemma view_Some:
  assumes "ui AND TAGMASK \<noteq> 0"
    and "ui AND TAGMASK \<noteq> tagset (monitor s (selmon s)) (seltags (monitor s (selmon s)))"
    and "view_swap s (ui AND TAGMASK) (mons s) = Some s1"
  shows "view s ui =
     (let S1 = monitor s1 (selmon s1);
          k = seltags S1 XOR 1;
          S2 = S1\<lparr>seltags := k\<rparr>;
          S3 = S2\<lparr>tagset := (tagset S2)(k := ui AND TAGMASK)\<rparr>;
          s2 = s1\<lparr>monitor := (monitor s1)(selmon s1 := S3)\<rparr>;
          (s3, fs) = view_fs s2 (ui AND TAGMASK) (clients (cl s2)) None;
          s4 = arrange' (attachclients s3 (Some (selmon s3))) (Some (selmon s3));
          s5 = (case fs of
                  None \<Rightarrow> s4
                | Some f \<Rightarrow>
                   (let t = s4\<lparr>client := (client s4)(f := (client s4 f)
                                \<lparr>isfullscreen := True\<rparr>)\<rparr>;
                        F = monitor t (mon (client t f))
                    in resizeclient t f (mx F) (my F) (mw F) (mh F)))
      in focus s5 None)"
  unfolding view_def using assms by (simp add: Let_def)

text \<open>
  Claim C10. \<open>view\<close> with a nonzero mask whose tag bits are the selected monitor's
  displayed tagset returns the state as it is; and for a mask with at least one tag bit,
  on a state whose focus stack holds only clients of the client list, viewing it twice
  gives the same state as viewing it once.
\<close>

theorem view_idempotent:
  "(ui \<noteq> 0 \<and> ui AND TAGMASK = tagset (monitor s (selmon s)) (seltags (monitor s (selmon s)))
      \<longrightarrow> view s ui = s)
   \<and> (ui AND TAGMASK \<noteq> 0 \<and> set (stack (cl s)) \<subseteq> set (clients (cl s))
      \<longrightarrow> view (view s ui) ui = view s ui)"
proof (intro conjI impI)
  assume "ui \<noteq> 0 \<and> ui AND TAGMASK = tagset (monitor s (selmon s)) (seltags (monitor s (selmon s)))"
  then show "view s ui = s"
    by (simp add: view_def)
next
  assume a: "ui AND TAGMASK \<noteq> 0 \<and> set (stack (cl s)) \<subseteq> set (clients (cl s))"
  then have nz: "ui \<noteq> 0"
    by auto
  have early: "view t ui = t"
    if "ui AND TAGMASK = tagset (monitor t (selmon t)) (seltags (monitor t (selmon t)))" for t
    using that nz by (simp add: view_def)
  show "view (view s ui) ui = view s ui"
  proof (cases "ui AND TAGMASK = tagset (monitor s (selmon s)) (seltags (monitor s (selmon s)))")
    case True
    then show ?thesis by (simp add: early)
  next
    case ne: False
    show ?thesis
    proof (cases "view_swap s (ui AND TAGMASK) (mons s)")
      case None
      then have "view s ui = s"
        using a by (simp add: view_def Let_def)
      then show ?thesis by simp
    next
      case (Some s1)
      note f1 = view_swap_frame [OF Some]
      define s2 where "s2 =
        (let S1 = monitor s1 (selmon s1);
             k = seltags S1 XOR 1;
             S2 = S1\<lparr>seltags := k\<rparr>;
             S3 = S2\<lparr>tagset := (tagset S2)(k := ui AND TAGMASK)\<rparr>
         in s1\<lparr>monitor := (monitor s1)(selmon s1 := S3)\<rparr>)"
      define s3 where "s3 = fst (view_fs s2 (ui AND TAGMASK) (clients (cl s2)) None)"
      define fs where "fs = snd (view_fs s2 (ui AND TAGMASK) (clients (cl s2)) None)"
      define s4 where "s4 = arrange' (attachclients s3 (Some (selmon s3))) (Some (selmon s3))"
      define s5 where "s5 = (case fs of
                     None \<Rightarrow> s4
                   | Some f \<Rightarrow>
                      (let t = s4\<lparr>client := (client s4)(f := (client s4 f)
                                   \<lparr>isfullscreen := True\<rparr>)\<rparr>;
                           F = monitor t (mon (client t f))
                       in resizeclient t f (mx F) (my F) (mw F) (mh F)))"
      have run: "view s ui = focus s5 None"
        unfolding view_Some [OF a [THEN conjunct1] ne [symmetric, THEN not_sym] Some]
        unfolding s5_def s4_def s3_def fs_def s2_def Let_def case_prod_beta
        by (rule refl)
      have sub: "set (stack (cl s2)) \<subseteq> set (clients (cl s2))"
        using a f1 by (simp add: s2_def Let_def)
      note tail = view_tail [OF sub s3_def s4_def s5_def, of "selmon s2"]
      have "selmon s2 = selmon s1"
        "tagset (monitor s2 (selmon s2)) (seltags (monitor s2 (selmon s2))) = ui AND TAGMASK"
        by (simp_all add: s2_def Let_def)
      with tail have "ui AND TAGMASK = tagset (monitor (view s ui) (selmon (view s ui)))
            (seltags (monitor (view s ui) (selmon (view s ui))))"
        unfolding run by simp
      then show ?thesis
        by (rule early)
    qed
  qed
qed

theorem view_idempotent_witness:
  "(1 :: 32 word) \<noteq> 0
   \<and> 1 AND TAGMASK = tagset (monitor st_one (selmon st_one)) (seltags (monitor st_one (selmon st_one)))
   \<and> view st_one 1 = st_one
   \<and> (2 :: 32 word) AND TAGMASK \<noteq> 0
   \<and> stack (cl st_one) = [1] \<and> clients (cl st_one) = [1]
   \<and> view (view st_one 2) 2 = view st_one 2"
proof -
  have h1: "(1 :: 32 word) \<noteq> 0
     \<and> 1 AND TAGMASK = tagset (monitor st_one (selmon st_one)) (seltags (monitor st_one (selmon st_one)))"
    by code_simp
  have l: "stack (cl st_one) = [1]" "clients (cl st_one) = [1]"
    by (simp_all add: ex_defs)
  have t: "(2 :: 32 word) AND TAGMASK \<noteq> 0"
    by code_simp
  have h2: "(2 :: 32 word) AND TAGMASK \<noteq> 0 \<and> set (stack (cl st_one)) \<subseteq> set (clients (cl st_one))"
    using t by (simp add: l)
  note t1 = view_idempotent [of 1 st_one, THEN conjunct1, THEN mp, OF h1]
  note t2 = view_idempotent [of 2 st_one, THEN conjunct2, THEN mp, OF h2]
  show ?thesis
    using h1 t l t1 t2 by simp
qed





















end
